theory Spec2Isabelle
  imports Complex_Main "HOL-Library.Sublist"
begin

section \<open>Values, exceptions and helpers\<close>

text \<open>
  The Python exceptions that the modelled code can raise; a function that can raise
  returns \<open>pyerr + 'a\<close>, with \<open>Inl\<close> the exception.
\<close>

datatype pyerr =
    TypeError
  | ValueError
  | IndexError
  | AttributeError
  | UnboundLocalError
  | LinAlgError
  | FileNotFoundError
  | RuntimeError

text \<open>
  Floating-point numbers are modelled by the reals. A log-probability can also be
  infinite or undefined (a prior density outside its support, the full-marginal
  likelihood of an indefinite matrix), so log-probabilities carry these values.
  One property below, the range of the closed-form draw of a free-spectrum variance,
  depends on the rounding of the floating-point operations; for it the expression is
  modelled a second time, in IEEE binary64 arithmetic (\<open>rho_draw_double\<close>).
\<close>

datatype lnval = Fin real | NegInf | PosInf | NaN

fun ln_add :: "lnval \<Rightarrow> lnval \<Rightarrow> lnval" where
  "ln_add NaN _ = NaN"
| "ln_add _ NaN = NaN"
| "ln_add (Fin x) (Fin y) = Fin (x + y)"
| "ln_add (Fin x) NegInf = NegInf"
| "ln_add (Fin x) PosInf = PosInf"
| "ln_add NegInf (Fin y) = NegInf"
| "ln_add PosInf (Fin y) = PosInf"
| "ln_add NegInf NegInf = NegInf"
| "ln_add PosInf PosInf = PosInf"
| "ln_add NegInf PosInf = NaN"
| "ln_add PosInf NegInf = NaN"

fun ln_neg :: "lnval \<Rightarrow> lnval" where
  "ln_neg (Fin x) = Fin (- x)"
| "ln_neg NegInf = PosInf"
| "ln_neg PosInf = NegInf"
| "ln_neg NaN = NaN"

definition ln_sub :: "lnval \<Rightarrow> lnval \<Rightarrow> lnval" where
  "ln_sub x y = ln_add x (ln_neg y)"

text \<open>The comparison \<open>x > y\<close> of two floats: false as soon as one of them is NaN.\<close>

fun ln_gt :: "lnval \<Rightarrow> lnval \<Rightarrow> bool" where
  "ln_gt NaN _ = False"
| "ln_gt _ NaN = False"
| "ln_gt (Fin x) (Fin y) = (y < x)"
| "ln_gt (Fin x) NegInf = True"
| "ln_gt (Fin x) PosInf = False"
| "ln_gt NegInf _ = False"
| "ln_gt PosInf PosInf = False"
| "ln_gt PosInf _ = True"

text \<open>\<open>np.log(u)\<close> of a uniform variate \<open>u\<close> of \<open>[0, 1)\<close>: minus infinity at zero.\<close>

definition np_log :: "real \<Rightarrow> lnval" where
  "np_log u = (if u = 0 then NegInf else if u < 0 then NaN else Fin (ln u))"

type_synonym vec = "real list"
type_synonym matrix = "real list list"

text \<open>Python's \<open>needle in hay\<close> on strings.\<close>

fun is_in :: "string \<Rightarrow> string \<Rightarrow> bool" where
  "is_in s [] = (s = [])"
| "is_in s (c # cs) = (prefix s (c # cs) \<or> is_in s cs)"

text \<open>\<open>str(n)\<close> of a non-negative integer.\<close>

fun str_nat :: "nat \<Rightarrow> string" where
  "str_nat n =
     (if n < 10 then [''0123456789'' ! n]
      else str_nat (n div 10) @ [''0123456789'' ! (n mod 10)])"

declare str_nat.simps [simp del]

text \<open>
  The idiom \<open>for ct, par in enumerate(names): if P(par): ind = ct\<close>: the index of the
  last name that satisfies \<open>P\<close>, starting from the value \<open>ind\<close> already has.
\<close>

definition last_index :: "(string \<Rightarrow> bool) \<Rightarrow> string list \<Rightarrow> nat option \<Rightarrow> nat option" where
  "last_index P names ind0 =
     fold (\<lambda>(ct, par) ind. if P par then Some ct else ind) (enumerate 0 names) ind0"

text \<open>The idiom that collects every index whose name satisfies \<open>P\<close>.\<close>

definition indices_where :: "(string \<Rightarrow> bool) \<Rightarrow> string list \<Rightarrow> nat list" where
  "indices_where P names = map fst (filter (\<lambda>(ct, par). P par) (enumerate 0 names))"

section \<open>The noise model consumed by the sampler\<close>

text \<open>
  The \<open>enterprise\<close> model object \<open>pta\<close> is an external collaborator: its methods are
  fields of a record. A parameter dictionary (the result of \<open>map_params\<close>) maps a
  parameter name to a scalar or to a slice of the flat vector.
\<close>

datatype pval = PScalar real | PVector vec

type_synonym pdict = "string \<rightharpoonup> pval"

record param =
  p_name :: string
  p_size :: "nat option"
  \<comment> \<open>the outcome of reading \<open>pmin\<close> and \<open>pmax\<close> out of the text of the prior,
      \<open>str(p.params[0])\<close>, with \<open>split\<close> and \<open>float\<close>\<close>
  p_prior :: "pyerr + real \<times> real"
  get_logpdf :: "pdict \<Rightarrow> lnval"

record signal =
  sig_key :: string
  sig_class :: string
  sig_name :: string
  \<comment> \<open>\<open>get_basis()\<close> of the signal: \<open>None\<close>, or a matrix with that many columns\<close>
  sig_width :: "nat option"
  get_phi :: "pdict \<Rightarrow> vec"

record pta =
  pulsars :: "string list"
  signals :: "signal list"
  params :: "param list"
  get_residuals :: vec
  \<comment> \<open>\<open>get_basis(params)[0]\<close>, a list of rows\<close>
  get_basis :: "pdict \<Rightarrow> matrix"
  get_ndiag :: "pdict \<Rightarrow> vec"
  \<comment> \<open>\<open>get_phiinv(params, logdet=True)[0]\<close>: the inverse prior variances and
      the log-determinant of the prior covariance\<close>
  get_phiinv :: "pdict \<Rightarrow> vec \<times> real"

text \<open>
  The pulsar object is used for one thing, \<open>selections.by_backend(psr.flags['f'])\<close>: a
  list of named boolean masks over the observations.
\<close>

type_synonym psr = "(string \<times> bool list) list"

section \<open>The sampler object\<close>

text \<open>
  The state of the external adaptive Metropolis engine (\<open>PTSampler\<close>), as far as
  the sampler reads and overwrites it: the covariance, the proposal groups, their
  decompositions, and which of the two likelihoods is its target.
\<close>

record ptsampler =
  pt_ndim :: nat
  pt_cov :: matrix
  pt_groups :: "nat list list option"
  pt_U :: "matrix list"
  pt_S :: "vec list"
  pt_logl_red :: bool

record gibbs =
  pta :: pta
  pulsar_name :: string
  hypersample :: string
  ecorrsample :: string
  residuals :: vec
  self_b :: vec
  TNT :: "matrix option"
  self_d :: "vec option"
  rhomin :: real
  rhomax :: real
  b_param_names :: "string list"
  gwid :: "nat list option"
  ecid :: "nat list option"
  ecorr_bounds :: "(real \<times> real) option"
  ecorr_inds_sel :: "nat list list option"
  red_sig :: "signal option"
  gw_sig :: "signal option"
  aclength_white :: "int option"
  ptsampler_rn :: "ptsampler option"
  chain :: matrix
  bchain :: matrix
  iter :: nat
  \<comment> \<open>what the object has printed so far\<close>
  stdout :: "string list"

text \<open>The number of columns of \<open>get_basis()[0]\<close>, which does not depend on the parameters.\<close>

definition basis_width :: "pta \<Rightarrow> nat" where
  "basis_width p = (case get_basis p Map.empty of [] \<Rightarrow> 0 | r # _ \<Rightarrow> length r)"

text \<open>
  The loop of \<open>__init__\<close> over the signals: the running column count \<open>ct\<close>, the names
  of the latent coefficients and the column ranges of the GW and ECORR processes.
\<close>

fun scan_signals ::
  "signal list \<Rightarrow> nat \<times> string list \<times> nat list option \<times> nat list option \<Rightarrow>
   pyerr + nat \<times> string list \<times> nat list option \<times> nat list option" where
  "scan_signals [] acc = Inr acc"
| "scan_signals (s # ss) (ct, names, gw, ec) =
     (if (is_in ''gw'' (sig_name s) \<or> is_in ''ecorr'' (sig_name s)) \<and> sig_width s = None
      then Inl AttributeError
      else
        let w = (case sig_width s of None \<Rightarrow> 0 | Some k \<Rightarrow> k);
            gw' = (if is_in ''gw'' (sig_name s) then Some (map (\<lambda>k. ct + k) [0..<w]) else gw);
            ec' = (if is_in ''ecorr'' (sig_name s) then Some (map (\<lambda>k. ct + k) [0..<w]) else ec)
        in if sig_width s \<noteq> None \<and> \<not> is_in ''red'' (sig_key s)
           then scan_signals ss
                  (ct + w, names @ map (\<lambda>ii. sig_key s @ ''_'' @ str_nat ii) [0..<w], gw', ec')
           else scan_signals ss (ct, names, gw', ec'))"

text \<open>\<open>M[:, cols]\<close>: the columns of a matrix at the given indices.\<close>

definition select_cols :: "matrix \<Rightarrow> nat list \<Rightarrow> pyerr + matrix" where
  "select_cols M cols =
     (if \<exists>r \<in> set M. \<exists>c \<in> set cols. length r \<le> c then Inl IndexError
      else Inr (map (\<lambda>r. map (\<lambda>c. r ! c) cols) M))"

text \<open>
  The ECORR epochs covered by one backend selection: the columns of \<open>Umat\<close> whose sum
  over the selected rows is positive. A mask of the wrong length is an \<open>IndexError\<close>.
\<close>

definition epochs_of_mask :: "matrix \<Rightarrow> nat \<Rightarrow> bool list \<Rightarrow> pyerr + nat list" where
  "epochs_of_mask Umat ncols msk =
     (if length msk \<noteq> length Umat then Inl IndexError
      else
        let rows = map fst (filter snd (zip Umat msk))
        in Inr (filter (\<lambda>j. 0 < sum_list (map (\<lambda>r. r ! j) rows)) [0..<ncols]))"

fun epochs_of_masks :: "matrix \<Rightarrow> nat \<Rightarrow> bool list list \<Rightarrow> pyerr + nat list list" where
  "epochs_of_masks Umat ncols [] = Inr []"
| "epochs_of_masks Umat ncols (m # ms) =
     (case epochs_of_mask Umat ncols m of
        Inl e \<Rightarrow> Inl e
      | Inr js \<Rightarrow>
          (case epochs_of_masks Umat ncols ms of
             Inl e \<Rightarrow> Inl e
           | Inr jss \<Rightarrow> Inr (js # jss)))"

text \<open>
  The constructor. It stores its arguments, rejects a kernel ECORR signal, reads the
  residuals, sizes the latent vector, reads the prior bounds of the free-spectrum
  parameter, scans the signals, reads the ECORR bounds and selections when there is
  an ECORR basis, and finds the red-noise and GW signals. The value of \<open>hypersample\<close>
  is stored and not inspected.
\<close>

definition rho_param :: "string \<Rightarrow> bool" where
  "rho_param par = (is_in ''rho'' par \<and> is_in ''gw'' par)"

definition init_ecorr ::
  "pta \<Rightarrow> string \<Rightarrow> psr option \<Rightarrow> nat \<Rightarrow> nat list option \<Rightarrow>
   pyerr + (real \<times> real) option \<times> nat list list option" where
  "init_ecorr p es ps ind ec =
     (case ec of
        None \<Rightarrow> Inr (None, None)
      | Some cols \<Rightarrow>
          (case last_index (is_in ''ecorr'') (map p_name (params p)) (Some ind) of
             None \<Rightarrow> Inl UnboundLocalError
           | Some ind' \<Rightarrow>
               (case p_prior (params p ! ind') of
                  Inl e \<Rightarrow> Inl e
                | Inr (lo, hi) \<Rightarrow>
                    let bounds = Some (10 powr (2 * lo), 10 powr (2 * hi))
                    in if es = ''conditional''
                       then
                         (case select_cols (get_basis p Map.empty) cols of
                            Inl e \<Rightarrow> Inl e
                          | Inr Umat \<Rightarrow>
                              (case ps of
                                 None \<Rightarrow> Inl AttributeError
                               | Some sel \<Rightarrow>
                                   (case epochs_of_masks Umat (length cols) (map snd sel) of
                                      Inl e \<Rightarrow> Inl e
                                    | Inr inds \<Rightarrow> Inr (bounds, Some inds))))
                       else Inr (bounds, None))))"

definition last_signal :: "string \<Rightarrow> signal list \<Rightarrow> signal option" where
  "last_signal tag sigs = fold (\<lambda>s r. if is_in tag (sig_name s) then Some s else r) sigs None"

definition PulsarBlockGibbs_init ::
  "pta \<Rightarrow> string \<Rightarrow> string \<Rightarrow> psr option \<Rightarrow> pyerr + gibbs" where
  "PulsarBlockGibbs_init p hs es ps =
     (case pulsars p of
        [] \<Rightarrow> Inl IndexError
      | nm # _ \<Rightarrow>
          if \<exists>sc \<in> set (map sig_class (signals p)). is_in ''EcorrKernelNoise'' sc
          then Inl TypeError
          else
            (case last_index rho_param (map p_name (params p)) None of
               None \<Rightarrow> Inl UnboundLocalError
             | Some ind \<Rightarrow>
                 (case p_prior (params p ! ind) of
                    Inl e \<Rightarrow> Inl e
                  | Inr (lo, hi) \<Rightarrow>
                      (case scan_signals (signals p) (0, [], None, None) of
                         Inl e \<Rightarrow> Inl e
                       | Inr (ct, names, gw, ec) \<Rightarrow>
                           (case init_ecorr p es ps ind ec of
                              Inl e \<Rightarrow> Inl e
                            | Inr (eb, einds) \<Rightarrow>
                                Inr \<lparr> pta = p,
                                      pulsar_name = nm,
                                      hypersample = hs,
                                      ecorrsample = es,
                                      residuals = get_residuals p,
                                      self_b = replicate (basis_width p) 0,
                                      TNT = None,
                                      self_d = None,
                                      rhomin = 10 powr (2 * lo),
                                      rhomax = 10 powr (2 * hi),
                                      b_param_names = names,
                                      gwid = gw,
                                      ecid = ec,
                                      ecorr_bounds = eb,
                                      ecorr_inds_sel = einds,
                                      red_sig = last_signal ''red'' (signals p),
                                      gw_sig = last_signal ''gw'' (signals p),
                                      aclength_white = None,
                                      ptsampler_rn = None,
                                      chain = [],
                                      bchain = [],
                                      iter = 0,
                                      stdout =
                                        [if ct = basis_width p then ''Basis count is good''
                                         else ''WARNING: Miscounted basis entries. Maybe red noise and GW do not share a design matrix.''] \<rparr>)))))"

section \<open>Parameter indexing\<close>

definition params_of :: "gibbs \<Rightarrow> param list" where
  "params_of g = params (pta g)"

definition names_of_param :: "param \<Rightarrow> string list" where
  "names_of_param p =
     (case p_size p of
        None \<Rightarrow> [p_name p]
      | Some n \<Rightarrow>
          if n \<noteq> 0 then map (\<lambda>ii. p_name p @ ''_'' @ str_nat ii) [0..<n] else [p_name p])"

definition param_names :: "gibbs \<Rightarrow> string list" where
  "param_names g = concat (map names_of_param (params_of g))"

text \<open>
  \<open>map_params\<close>: a parameter of size above one takes a slice (which never raises), any
  other parameter takes \<open>float(xs[ct])\<close>, an \<open>IndexError\<close> past the end of the vector.
\<close>

fun map_params_from :: "param list \<Rightarrow> vec \<Rightarrow> nat \<Rightarrow> pdict \<Rightarrow> pyerr + pdict" where
  "map_params_from [] xs ct ret = Inr ret"
| "map_params_from (p # ps) xs ct ret =
     (let n = (case p_size p of None \<Rightarrow> 1 | Some k \<Rightarrow> if k \<noteq> 0 then k else 1)
      in if 1 < n
         then map_params_from ps xs (ct + n) (ret(p_name p \<mapsto> PVector (take n (drop ct xs))))
         else if ct < length xs
         then map_params_from ps xs (ct + n) (ret(p_name p \<mapsto> PScalar (xs ! ct)))
         else Inl IndexError)"

definition map_params :: "gibbs \<Rightarrow> vec \<Rightarrow> pyerr + pdict" where
  "map_params g xs = map_params_from (params_of g) xs 0 Map.empty"

definition get_gwrho_param_indices :: "gibbs \<Rightarrow> nat list" where
  "get_gwrho_param_indices g = indices_where (is_in ''rho'') (param_names g)"

definition get_red_param_indices :: "gibbs \<Rightarrow> nat list" where
  "get_red_param_indices g =
     indices_where (\<lambda>par. is_in ''log10_A'' par \<or> is_in ''gamma'' par) (param_names g)"

definition get_efacequad_indices :: "gibbs \<Rightarrow> nat list" where
  "get_efacequad_indices g =
     indices_where (\<lambda>par. is_in ''efac'' par \<or> is_in ''equad'' par) (param_names g)"

definition get_ecorr_indices :: "gibbs \<Rightarrow> nat list" where
  "get_ecorr_indices g = indices_where (is_in ''ecorr'') (param_names g)"

section \<open>Arrays\<close>

text \<open>
  Parameter vectors are numpy arrays, passed by reference and written in place
  (\<open>q[par] += ...\<close>, \<open>xnew[gwind] = ...\<close>). The store is the list of all arrays
  allocated so far, an array's address its position; \<open>copy()\<close> allocates.
\<close>

type_synonym addr = nat
type_synonym heap = "vec list"

definition alloc :: "heap \<Rightarrow> vec \<Rightarrow> heap \<times> addr" where
  "alloc h v = (h @ [v], length h)"

text \<open>Elementwise operations of two one-dimensional arrays, with numpy's broadcasting.\<close>

definition np_zip :: "(real \<Rightarrow> real \<Rightarrow> 'a) \<Rightarrow> vec \<Rightarrow> vec \<Rightarrow> pyerr + 'a list" where
  "np_zip f xs ys =
     (if length xs = length ys then Inr (map2 f xs ys)
      else if length xs = 1 then Inr (map (f (hd xs)) ys)
      else if length ys = 1 then Inr (map (\<lambda>x. f x (hd ys)) xs)
      else Inl ValueError)"

text \<open>The slices \<open>v[::2]\<close> and \<open>v[1::2]\<close>.\<close>

fun evens :: "'a list \<Rightarrow> 'a list" where
  "evens [] = []"
| "evens [x] = [x]"
| "evens (x # y # zs) = x # evens zs"

fun odds :: "'a list \<Rightarrow> 'a list" where
  "odds [] = []"
| "odds [x] = []"
| "odds (x # y # zs) = y # odds zs"

text \<open>Reading \<open>v[idx]\<close> and writing \<open>v[idx] = vals\<close> with an array of indices.\<close>

definition np_getitem :: "vec \<Rightarrow> nat list \<Rightarrow> pyerr + vec" where
  "np_getitem v idx =
     (if \<exists>i \<in> set idx. length v \<le> i then Inl IndexError else Inr (map (\<lambda>i. v ! i) idx))"

definition np_setitem :: "vec \<Rightarrow> nat list \<Rightarrow> vec \<Rightarrow> pyerr + vec" where
  "np_setitem v idx vals =
     (if \<exists>i \<in> set idx. length v \<le> i then Inl IndexError
      else if length vals = length idx
      then Inr (fold (\<lambda>(i, x) a. a[i := x]) (zip idx vals) v)
      else if length vals = 1
      then Inr (fold (\<lambda>i a. a[i := hd vals]) idx v)
      else Inl ValueError)"

text \<open>\<open>np.argmax\<close>: the first position of the largest entry.\<close>

fun argmax_from :: "real list \<Rightarrow> nat \<Rightarrow> nat \<Rightarrow> real \<Rightarrow> nat" where
  "argmax_from [] i best bv = best"
| "argmax_from (x # xs) i best bv =
     (if bv < x then argmax_from xs (Suc i) i x else argmax_from xs (Suc i) best bv)"

definition argmax :: "real list \<Rightarrow> nat" where
  "argmax xs = (case xs of [] \<Rightarrow> 0 | x # r \<Rightarrow> argmax_from r 1 0 x)"

section \<open>The conditional sampler of the free-spectrum variances\<close>

text \<open>
  The variance statistic of each frequency: the mean of the squares of its two
  latent coefficients, \<open>(tau[::2] + tau[1::2]) / 2\<close> of \<open>tau = b[gwid]**2\<close>. Without a
  GW signal \<open>gwid\<close> is \<open>None\<close>, the index adds an axis and the statistic is empty.
\<close>

definition get_tau :: "gibbs \<Rightarrow> pyerr + vec" where
  "get_tau g =
     (case gwid g of
        None \<Rightarrow> Inr []
      | Some idx \<Rightarrow>
          (case np_getitem (self_b g) idx of
             Inl e \<Rightarrow> Inl e
           | Inr bs \<Rightarrow>
               (let sq = map (\<lambda>x. x ^ 2) bs
                in case np_zip (+) (evens sq) (odds sq) of
                     Inl e \<Rightarrow> Inl e
                   | Inr s \<Rightarrow> Inr (map (\<lambda>x. x / 2) s))))"

text \<open>
  The closed-form draw. \<open>np.random.uniform(0, high)\<close> is \<open>high\<close> times a uniform
  variate \<open>U\<close> of \<open>[0, 1)\<close>; \<open>rho_draw\<close> inverts the conditional distribution function.
  Both expressions are read here in exact arithmetic, as every float of the model is.
  What the reals cannot show: the code rounds each operation, and for \<open>tau = 0\<close> it
  computes \<open>0/0\<close>, a NaN, where the quotient of the reals is 0.
\<close>

definition eta_high :: "real \<Rightarrow> real \<Rightarrow> real \<Rightarrow> real" where
  "eta_high tau rmin rmax = 1 - exp (tau / rmax - tau / rmin)"

definition rho_draw :: "real \<Rightarrow> real \<Rightarrow> real \<Rightarrow> real" where
  "rho_draw tau rmax u = tau / (tau / rmax - ln (1 - u))"

text \<open>
  The same draw as the code evaluates it, in IEEE binary64 with rounding to nearest,
  ties to even. A float is a finite value, an infinity or NaN; the sign of a zero is
  not kept, a zero is \<open>+0\<close> (in this expression a zero denominator is the difference
  of two zeros of positive sign).

  \<open>round_even\<close> rounds a real to the nearest integer, a tie to the even one. \<open>fl\<close>
  rounds a real to binary64: 53 significant bits, the unit in the last place never
  below \<open>2^-1074\<close> (gradual underflow), and an infinity when the rounded magnitude
  reaches \<open>2^1024\<close>.
\<close>

type_synonym double = lnval

definition round_even :: "real \<Rightarrow> int" where
  "round_even y =
     (let f = \<lfloor>y\<rfloor>
      in if y - of_int f < 1/2 then f
         else if 1/2 < y - of_int f then f + 1
         else if even f then f else f + 1)"

definition fl :: "real \<Rightarrow> double" where
  "fl x =
     (if x = 0 then Fin 0
      else
        (let e = max (\<lfloor>log 2 \<bar>x\<bar>\<rfloor> - 52) (- 1074);
             r = of_int (round_even (x / 2 powr of_int e)) * 2 powr of_int e
         in if 2 powr 1024 \<le> \<bar>r\<bar> then (if 0 < x then PosInf else NegInf) else Fin r))"

text \<open>
  Subtraction and division of binary64: the exact result, rounded; the special values
  as IEEE 754 has them.
\<close>

fun fsub :: "double \<Rightarrow> double \<Rightarrow> double" where
  "fsub (Fin x) (Fin y) = fl (x - y)"
| "fsub x y = ln_sub x y"

fun fdiv :: "double \<Rightarrow> double \<Rightarrow> double" where
  "fdiv NaN _ = NaN"
| "fdiv _ NaN = NaN"
| "fdiv (Fin x) (Fin y) =
     (if y = 0 then (if x = 0 then NaN else if 0 < x then PosInf else NegInf)
      else fl (x / y))"
| "fdiv (Fin x) _ = Fin 0"
| "fdiv PosInf (Fin y) = (if y < 0 then NegInf else PosInf)"
| "fdiv NegInf (Fin y) = (if y < 0 then PosInf else NegInf)"
| "fdiv _ _ = NaN"

text \<open>
  \<open>np.log\<close> of a binary64: the logarithm, rounded. The library's logarithm may
  differ from the rounded one in the last place; at 1 both are exactly 0.
\<close>

fun flog :: "double \<Rightarrow> double" where
  "flog (Fin x) = (if x < 0 then NaN else if x = 0 then NegInf else fl (ln x))"
| "flog PosInf = PosInf"
| "flog _ = NaN"

text \<open>\<open>tau / ((tau/self.rhomax) - np.log(1-eta))\<close>, operation by operation.\<close>

definition rho_draw_double :: "double \<Rightarrow> double \<Rightarrow> double \<Rightarrow> double" where
  "rho_draw_double tau rmax eta =
     fdiv tau (fsub (fdiv tau rmax) (flog (fsub (Fin 1) eta)))"

text \<open>The random numbers one call of the sampler consumes.\<close>

record rho_rand =
  uniform01 :: "nat \<Rightarrow> real"
  gumbel :: "nat \<Rightarrow> nat \<Rightarrow> real"

definition draw_rho_analytic :: "gibbs \<Rightarrow> rho_rand \<Rightarrow> vec \<Rightarrow> vec" where
  "draw_rho_analytic g rnd tau =
     map (\<lambda>(k, t). rho_draw t (rhomax g) (eta_high t (rhomin g) (rhomax g) * uniform01 rnd k))
       (enumerate 0 tau)"

text \<open>
  The grid draw, used when there is an intrinsic red-noise signal: a grid of 1000
  values uniform in \<open>log10(rho)\<close>, the unnormalised log-density of each grid value and
  the Gumbel-max trick.
\<close>

definition rho_grid :: "gibbs \<Rightarrow> vec" where
  "rho_grid g =
     map (\<lambda>j. 10 powr (log 10 (rhomin g)
                 + real j * (log 10 (rhomax g) - log 10 (rhomin g)) / 999)) [0..<1000]"

definition logaddexp :: "real \<Rightarrow> real \<Rightarrow> real" where
  "logaddexp x y = ln (exp x + exp y)"

definition grid_logpdf :: "vec \<Rightarrow> real \<Rightarrow> real \<Rightarrow> vec" where
  "grid_logpdf grid t i =
     map (\<lambda>r. let logratio = ln t - logaddexp (ln i) (ln r) in logratio - exp logratio) grid"

definition draw_rho_grid :: "gibbs \<Rightarrow> rho_rand \<Rightarrow> vec \<Rightarrow> vec \<Rightarrow> pyerr + vec" where
  "draw_rho_grid g rnd tau irn =
     (case np_zip (grid_logpdf (rho_grid g)) tau irn of
        Inl e \<Rightarrow> Inl e
      | Inr rows \<Rightarrow>
          Inr (map (\<lambda>(k, row).
                 rho_grid g !
                   argmax (map (\<lambda>(j, x). x + gumbel rnd (if length tau = 1 then 0 else k) j)
                             (enumerate 0 row)))
               (enumerate 0 rows)))"

definition rho_error_message :: string where
  "rho_error_message = ''ERROR: Only conditional draws on rho for now...''"

text \<open>
  \<open>update_gwrho_params\<close> takes the store and the address of \<open>xs\<close> and returns the
  address of the new vector. It copies \<open>xs\<close> first and writes into the copy only. With
  a sampling mode other than \<open>conditional\<close> it prints a message and returns the copy.
\<close>

definition update_gwrho_params ::
  "gibbs \<Rightarrow> rho_rand \<Rightarrow> heap \<Rightarrow> addr \<Rightarrow> pyerr + addr \<times> heap \<times> gibbs" where
  "update_gwrho_params g rnd h xs =
     (let gwind = get_gwrho_param_indices g;
          (h1, xnew) = alloc h (h ! xs)
      in if hypersample g = ''conditional''
         then
           (case get_tau g of
              Inl e \<Rightarrow> Inl e
            | Inr tau \<Rightarrow>
                (case (case red_sig g of
                         None \<Rightarrow> Inr (draw_rho_analytic g rnd tau)
                       | Some rs \<Rightarrow>
                           (case map_params g (h1 ! xnew) of
                              Inl e \<Rightarrow> Inl e
                            | Inr ps \<Rightarrow> draw_rho_grid g rnd tau (evens (get_phi rs ps)))) of
                   Inl e \<Rightarrow> Inl e
                 | Inr rhonew \<Rightarrow>
                     (case np_setitem (h1 ! xnew) gwind (map (\<lambda>r. 0.5 * log 10 r) rhonew) of
                        Inl e \<Rightarrow> Inl e
                      | Inr v \<Rightarrow> Inr (xnew, h1[xnew := v], g))))
         else Inr (xnew, h1, g\<lparr>stdout := stdout g @ [rho_error_message]\<rparr>))"

section \<open>External numerical routines\<close>

text \<open>
  The routines of numpy, scipy and \<open>acor\<close> that the sampler calls are parameters: each
  returns its value or the exception it raises. The decompositions return the left
  factor and the singular values. The argument of \<open>np_linalg_svd\<close> is \<open>None\<close> for the
  matrix of NaN that \<open>np.cov\<close> gives with fewer than two rows.
\<close>

record numlib =
  acor :: "vec \<Rightarrow> pyerr + real"
  np_linalg_svd :: "matrix option \<Rightarrow> pyerr + matrix \<times> vec"
  sl_svd :: "matrix \<Rightarrow> pyerr + matrix \<times> vec"
  sl_qr :: "matrix \<Rightarrow> matrix \<times> matrix"
  sl_solve :: "matrix \<Rightarrow> matrix \<Rightarrow> pyerr + matrix"
  cho_factor :: "matrix \<Rightarrow> pyerr + matrix"
  cho_solve :: "matrix \<Rightarrow> vec \<Rightarrow> pyerr + vec"

section \<open>Linear algebra on lists\<close>

definition dot :: "vec \<Rightarrow> vec \<Rightarrow> real" where
  "dot xs ys = sum_list (map2 (*) xs ys)"

text \<open>\<open>np.dot(M, v)\<close>: every row of \<open>M\<close> must be as long as \<open>v\<close>.\<close>

definition mat_vec :: "matrix \<Rightarrow> vec \<Rightarrow> pyerr + vec" where
  "mat_vec M v =
     (if \<exists>r \<in> set M. length r \<noteq> length v then Inl ValueError
      else Inr (map (\<lambda>r. dot r v) M))"

text \<open>\<open>np.dot(A, B)\<close> of two matrices, \<open>B\<close> given by its rows.\<close>

definition mat_mul :: "matrix \<Rightarrow> matrix \<Rightarrow> pyerr + matrix" where
  "mat_mul A B =
     (if \<exists>r \<in> set A. length r \<noteq> length B then Inl ValueError
      else Inr (map (\<lambda>r. map (\<lambda>c. dot r c) (transpose B)) A))"

text \<open>\<open>M / v[:, None]\<close>: row \<open>i\<close> of \<open>M\<close> divided by \<open>v[i]\<close>.\<close>

definition div_rows :: "matrix \<Rightarrow> vec \<Rightarrow> pyerr + matrix" where
  "div_rows M v =
     (if length M = length v then Inr (map2 (\<lambda>r x. map (\<lambda>y. y / x) r) M v)
      else if length v = 1 then Inr (map (map (\<lambda>y. y / hd v)) M)
      else Inl ValueError)"

text \<open>\<open>A + np.diag(v)\<close> for a square matrix \<open>A\<close> of the size of \<open>v\<close>.\<close>

definition add_diag :: "matrix \<Rightarrow> vec \<Rightarrow> pyerr + matrix" where
  "add_diag A v =
     (if length A = length v \<and> (\<forall>r \<in> set A. length r = length v)
      then Inr (map (\<lambda>(i, r). r[i := r ! i + v ! i]) (enumerate 0 A))
      else Inl ValueError)"

section \<open>Likelihoods and prior\<close>

text \<open>
  \<open>get_lnlikelihood_white\<close>: \<open>-0.5 * (sum(log(Nvec)) + sum(yred**2 / Nvec))\<close> with
  \<open>yred = residuals - T b\<close>. A noise variance that is not positive makes the float
  result NaN.
\<close>

definition get_lnlikelihood_white :: "gibbs \<Rightarrow> vec \<Rightarrow> pyerr + lnval" where
  "get_lnlikelihood_white g xs =
     (case map_params g xs of
        Inl e \<Rightarrow> Inl e
      | Inr ps \<Rightarrow>
          (let Nvec = get_ndiag (pta g) ps;
               Tmat = get_basis (pta g) ps
           in case mat_vec Tmat (self_b g) of
                Inl e \<Rightarrow> Inl e
              | Inr mn \<Rightarrow>
                  (case np_zip (-) (residuals g) mn of
                     Inl e \<Rightarrow> Inl e
                   | Inr yred \<Rightarrow>
                       (case np_zip (\<lambda>y n. y ^ 2 / n) yred Nvec of
                          Inl e \<Rightarrow> Inl e
                        | Inr terms \<Rightarrow>
                            if \<exists>n \<in> set Nvec. n \<le> 0 then Inr NaN
                            else Inr (Fin (- 0.5 * (sum_list (map ln Nvec) + sum_list terms)))))))"

definition get_lnprior :: "gibbs \<Rightarrow> vec \<Rightarrow> pyerr + lnval" where
  "get_lnprior g xs =
     (case map_params g xs of
        Inl e \<Rightarrow> Inl e
      | Inr ps \<Rightarrow> Inr (fold ln_add (map (\<lambda>p. get_logpdf p ps) (params_of g)) (Fin 0)))"

section \<open>The adaptive Metropolis block of the white-noise parameters\<close>

text \<open>The random numbers of one Metropolis step.\<close>

record mh_draw =
  scale_ix :: nat
  par_ix :: nat
  normal :: real
  accept_u :: real

definition sizes :: "real list" where
  "sizes = [0.1, 0.5, 1.0, 3.0, 10.0]"

text \<open>
  The state of the Metropolis loop: the store, the address of \<open>xnew\<close>, and the
  log-likelihood and log-prior of the current point.
\<close>

type_synonym mh_state = "heap \<times> addr \<times> lnval \<times> lnval"

text \<open>
  The Metropolis test, \<open>diff > np.log(np.random.rand())\<close> with
  \<open>diff = (lnlike1 + lnprior1) - (lnlike0 + lnprior0)\<close>.
\<close>

definition metropolis_accept :: "lnval \<Rightarrow> lnval \<Rightarrow> lnval \<Rightarrow> lnval \<Rightarrow> real \<Rightarrow> bool" where
  "metropolis_accept lnlike1 lnprior1 lnlike0 lnprior0 u =
     ln_gt (ln_sub (ln_add lnlike1 lnprior1) (ln_add lnlike0 lnprior0)) (np_log u)"

text \<open>
  One step: copy \<open>xnew\<close> into \<open>q\<close>, move one coordinate of \<open>q\<close> chosen in the block,
  and accept \<open>q\<close> when the test holds. The step also returns the address of \<open>q\<close>,
  which the tuning loop records.
\<close>

definition mh_step ::
  "gibbs \<Rightarrow> nat list \<Rightarrow> mh_draw \<Rightarrow> mh_state \<Rightarrow> pyerr + mh_state \<times> addr" where
  "mh_step g wind dr s =
     (case s of (h, xnew, lnlike0, lnprior0) \<Rightarrow>
        let (h1, q) = alloc h (h ! xnew);
            sigmas = 0.05 * real (length wind);
            scale = sizes ! (scale_ix dr mod 5)
        in if wind = [] then Inl ValueError
           else
             let par = wind ! (par_ix dr mod length wind)
             in if length (h1 ! q) \<le> par then Inl IndexError
                else
                  let h2 = h1[q := (h1 ! q)[par := h1 ! q ! par + normal dr * sigmas * scale]]
                  in case get_lnlikelihood_white g (h2 ! q) of
                       Inl e \<Rightarrow> Inl e
                     | Inr lnlike1 \<Rightarrow>
                         (case get_lnprior g (h2 ! q) of
                            Inl e \<Rightarrow> Inl e
                          | Inr lnprior1 \<Rightarrow>
                              if metropolis_accept lnlike1 lnprior1 lnlike0 lnprior0 (accept_u dr)
                              then Inr ((h2, q, lnlike1, lnprior1), q)
                              else Inr ((h2, xnew, lnlike0, lnprior0), q)))"

text \<open>The production loop, \<open>for ii in range(n)\<close>, from step \<open>ii\<close> on.\<close>

fun mh_loop ::
  "gibbs \<Rightarrow> nat list \<Rightarrow> (nat \<Rightarrow> mh_draw) \<Rightarrow> nat \<Rightarrow> nat \<Rightarrow> mh_state \<Rightarrow> pyerr + mh_state" where
  "mh_loop g wind rnd ii 0 s = Inr s"
| "mh_loop g wind rnd ii (Suc n) s =
     (case mh_step g wind (rnd ii) s of
        Inl e \<Rightarrow> Inl e
      | Inr (s', q) \<Rightarrow> mh_loop g wind rnd (Suc ii) n s')"

text \<open>The tuning loop, which also writes \<open>short_chain[ii, :] = q[wind]\<close>.\<close>

fun mh_tune_loop ::
  "gibbs \<Rightarrow> nat list \<Rightarrow> (nat \<Rightarrow> mh_draw) \<Rightarrow> nat \<Rightarrow> nat \<Rightarrow> mh_state \<times> matrix \<Rightarrow>
   pyerr + mh_state \<times> matrix" where
  "mh_tune_loop g wind rnd ii 0 sc = Inr sc"
| "mh_tune_loop g wind rnd ii (Suc n) sc =
     (case sc of (s, short_chain) \<Rightarrow>
        (case mh_step g wind (rnd ii) s of
           Inl e \<Rightarrow> Inl e
         | Inr (s', q) \<Rightarrow>
             (case np_getitem (fst s' ! q) wind of
                Inl e \<Rightarrow> Inl e
              | Inr row \<Rightarrow> mh_tune_loop g wind rnd (Suc ii) n (s', short_chain[ii := row]))))"

text \<open>Python's \<open>int(x)\<close> of a float: truncation towards zero.\<close>

definition py_int :: "real \<Rightarrow> int" where
  "py_int x = (if 0 \<le> x then \<lfloor>x\<rfloor> else \<lceil>x\<rceil>)"

text \<open>The calls \<open>int(acor.acor(short_chain[100:, jj])[0])\<close>, for \<open>jj\<close> in order.\<close>

fun acor_ints :: "numlib \<Rightarrow> matrix \<Rightarrow> nat list \<Rightarrow> pyerr + int list" where
  "acor_ints lib rows [] = Inr []"
| "acor_ints lib rows (jj # js) =
     (case acor lib (map (\<lambda>r. r ! jj) rows) of
        Inl e \<Rightarrow> Inl e
      | Inr t \<Rightarrow>
          (case acor_ints lib rows js of
             Inl e \<Rightarrow> Inl e
           | Inr ts \<Rightarrow> Inr (py_int t # ts)))"

text \<open>\<open>np.cov(rows, rowvar=False)\<close> for at least two rows and two columns.\<close>

definition np_cov :: "matrix \<Rightarrow> nat \<Rightarrow> matrix option" where
  "np_cov rows k =
     (if length rows < 2 then None
      else
        let n = real (length rows);
            col = (\<lambda>j. map (\<lambda>r. r ! j) rows);
            dev = (\<lambda>j. map (\<lambda>x. x - sum_list (col j) / n) (col j))
        in Some (map (\<lambda>i. map (\<lambda>j. dot (dev i) (dev j) / (n - 1)) [0..<k]) [0..<k]))"

text \<open>
  What follows the tuning loop. The covariance, its diagonal and its decomposition
  are stored in attributes that nothing reads, so the model keeps their exceptions
  only: \<open>np.cov\<close> of a single column is a scalar, on which \<open>np.diag\<close> raises
  \<open>ValueError\<close>, and \<open>np.max\<close> of an empty list raises \<open>ValueError\<close>. The thinning
  length is the largest of the truncated autocorrelation times.
\<close>

definition tune_aclength :: "numlib \<Rightarrow> matrix \<Rightarrow> nat \<Rightarrow> pyerr + int" where
  "tune_aclength lib short_chain k =
     (let kept = drop 100 short_chain
      in if k < 2 then Inl ValueError
         else
           (case np_linalg_svd lib (np_cov kept k) of
              Inl e \<Rightarrow> Inl e
            | Inr _ \<Rightarrow>
                (case acor_ints lib kept [0..<k] of
                   Inl e \<Rightarrow> Inl e
                 | Inr ts \<Rightarrow> Inr (Max (set ts)))))"

text \<open>
  \<open>update_white_params\<close> takes the store and the address of \<open>xs\<close>; \<open>iters\<close> is \<open>None\<close>
  in production. It returns the address of the new vector, the store and the object,
  whose thinning length a tuning run sets.
\<close>

definition update_white_params ::
  "numlib \<Rightarrow> gibbs \<Rightarrow> (nat \<Rightarrow> mh_draw) \<Rightarrow> heap \<Rightarrow> addr \<Rightarrow> nat option \<Rightarrow>
   pyerr + addr \<times> heap \<times> gibbs" where
  "update_white_params lib g rnd h xs iters =
     (let wind = get_efacequad_indices g;
          (h1, xnew) = alloc h (h ! xs)
      in case get_lnlikelihood_white g (h1 ! xnew) of
           Inl e \<Rightarrow> Inl e
         | Inr lnlike0 \<Rightarrow>
             (case get_lnprior g (h1 ! xnew) of
                Inl e \<Rightarrow> Inl e
              | Inr lnprior0 \<Rightarrow>
                  (case iters of
                     Some n \<Rightarrow>
                       (case mh_tune_loop g wind rnd 0 n
                               ((h1, xnew, lnlike0, lnprior0),
                                replicate n (replicate (length wind) 0)) of
                          Inl e \<Rightarrow> Inl e
                        | Inr ((h2, xnew', _, _), short_chain) \<Rightarrow>
                            (case tune_aclength lib short_chain (length wind) of
                               Inl e \<Rightarrow> Inl e
                             | Inr a \<Rightarrow> Inr (xnew', h2, g\<lparr>aclength_white := Some a\<rparr>)))
                   | None \<Rightarrow>
                       (case aclength_white g of
                          None \<Rightarrow> Inl AttributeError
                        | Some a \<Rightarrow>
                            (case mh_loop g wind rnd 0 (nat a) (h1, xnew, lnlike0, lnprior0) of
                               Inl e \<Rightarrow> Inl e
                             | Inr (h2, xnew', _, _) \<Rightarrow> Inr (xnew', h2, g))))))"

section \<open>The cached products and the full-marginal likelihood\<close>

text \<open>
  \<open>TNT = T' N^-1 T\<close> and \<open>d = T' N^-1 r\<close> are computed when both attributes are
  \<open>None\<close> and reused otherwise.
\<close>

definition fill_cache :: "gibbs \<Rightarrow> matrix \<Rightarrow> vec \<Rightarrow> pyerr + gibbs" where
  "fill_cache g T Nvec =
     (if TNT g = None \<and> self_d g = None
      then
        (case div_rows T Nvec of
           Inl e \<Rightarrow> Inl e
         | Inr TN \<Rightarrow>
             (case mat_mul (transpose T) TN of
                Inl e \<Rightarrow> Inl e
              | Inr tnt \<Rightarrow>
                  (case np_zip (/) (residuals g) Nvec of
                     Inl e \<Rightarrow> Inl e
                   | Inr rN \<Rightarrow>
                       (case mat_vec (transpose T) rN of
                          Inl e \<Rightarrow> Inl e
                        | Inr dv \<Rightarrow> Inr (g\<lparr>TNT := Some tnt, self_d := Some dv\<rparr>)))))
      else Inr g)"

text \<open>\<open>Sigma = self.TNT + np.diag(phiinv)\<close>, together with \<open>self.d\<close>.\<close>

definition get_Sigma :: "gibbs \<Rightarrow> vec \<Rightarrow> pyerr + matrix \<times> vec" where
  "get_Sigma g phiinv =
     (case (TNT g, self_d g) of
        (Some tnt, Some dv) \<Rightarrow>
          (case add_diag tnt phiinv of Inl e \<Rightarrow> Inl e | Inr Sgm \<Rightarrow> Inr (Sgm, dv))
      | _ \<Rightarrow> Inl TypeError)"

text \<open>
  The \<open>try\<close> block of \<open>get_lnlikelihood_fullmarg\<close>: \<open>cho_factor\<close> then \<open>cho_solve\<close>.
  The \<open>except\<close> clause catches \<open>LinAlgError\<close> and nothing else.
\<close>

definition try_cholesky :: "numlib \<Rightarrow> matrix \<Rightarrow> vec \<Rightarrow> pyerr + matrix \<times> vec" where
  "try_cholesky lib Sgm dv =
     (case cho_factor lib Sgm of
        Inl e \<Rightarrow> Inl e
      | Inr cf \<Rightarrow>
          (case cho_solve lib cf dv of Inl e \<Rightarrow> Inl e | Inr expval \<Rightarrow> Inr (cf, expval)))"

text \<open>
  What \<open>get_lnlikelihood_fullmarg\<close> does before its \<open>try\<close> block: the noise
  variances, the terms of \<open>rNr\<close>, the log-determinant of the prior, \<open>Sigma\<close>, \<open>d\<close> and
  the object with its cache filled.
\<close>

definition fullmarg_setup ::
  "gibbs \<Rightarrow> vec \<Rightarrow> pyerr + vec \<times> vec \<times> real \<times> matrix \<times> vec \<times> gibbs" where
  "fullmarg_setup g xs =
     (case map_params g xs of
        Inl e \<Rightarrow> Inl e
      | Inr ps \<Rightarrow>
          (let Nvec = get_ndiag (pta g) ps;
               (phiinv, logdet_phi) = get_phiinv (pta g) ps;
               T = get_basis (pta g) ps
           in case fill_cache g T Nvec of
                Inl e \<Rightarrow> Inl e
              | Inr g' \<Rightarrow>
                  (case np_zip (\<lambda>r n. r ^ 2 / n) (residuals g) Nvec of
                     Inl e \<Rightarrow> Inl e
                   | Inr terms \<Rightarrow>
                       (case get_Sigma g' phiinv of
                          Inl e \<Rightarrow> Inl e
                        | Inr (Sgm, dv) \<Rightarrow> Inr (Nvec, terms, logdet_phi, Sgm, dv, g')))))"

definition get_lnlikelihood_fullmarg :: "numlib \<Rightarrow> gibbs \<Rightarrow> vec \<Rightarrow> pyerr + lnval \<times> gibbs" where
  "get_lnlikelihood_fullmarg lib g xs =
     (case fullmarg_setup g xs of
        Inl e \<Rightarrow> Inl e
      | Inr (Nvec, terms, logdet_phi, Sgm, dv, g') \<Rightarrow>
          (case try_cholesky lib Sgm dv of
             Inl LinAlgError \<Rightarrow> Inr (NegInf, g')
           | Inl e \<Rightarrow> Inl e
           | Inr (cf, expval) \<Rightarrow>
               if \<exists>n \<in> set Nvec. n \<le> 0 then Inr (NaN, g')
               else
                 let loglike = - 0.5 * (sum_list (map ln Nvec) + sum_list terms);
                     logdet_sigma = sum_list (map (\<lambda>(k, r). 2 * ln (r ! k)) (enumerate 0 cf))
                 in Inr (Fin (loglike + 0.5 * (dot dv expval - logdet_sigma - logdet_phi)), g')))"

section \<open>The draw of the latent coefficients\<close>

text \<open>\<open>u * np.sqrt(1/s)\<close>: column \<open>j\<close> of \<open>u\<close> scaled by \<open>sqrt(1/s[j])\<close>.\<close>

definition scale_cols :: "matrix \<Rightarrow> vec \<Rightarrow> pyerr + matrix" where
  "scale_cols u s =
     (if \<forall>r \<in> set u. length r = length s
      then Inr (map (\<lambda>r. map2 (\<lambda>x sj. x * sqrt (1 / sj)) r s) u)
      else Inl ValueError)"

text \<open>The \<open>try\<close> block of \<open>update_b\<close>, and its \<open>except LinAlgError\<close> fallback.\<close>

definition mean_and_factor_svd :: "numlib \<Rightarrow> matrix \<Rightarrow> vec \<Rightarrow> pyerr + vec \<times> matrix" where
  "mean_and_factor_svd lib Sgm dv =
     (case sl_svd lib Sgm of
        Inl e \<Rightarrow> Inl e
      | Inr (u, s) \<Rightarrow>
          (case mat_vec (transpose u) dv of
             Inl e \<Rightarrow> Inl e
           | Inr utd \<Rightarrow>
               (case np_zip (/) utd s of
                  Inl e \<Rightarrow> Inl e
                | Inr q \<Rightarrow>
                    (case mat_vec u q of
                       Inl e \<Rightarrow> Inl e
                     | Inr mn \<Rightarrow>
                         (case scale_cols u s of Inl e \<Rightarrow> Inl e | Inr Li \<Rightarrow> Inr (mn, Li))))))"

definition mean_and_factor_qr :: "numlib \<Rightarrow> matrix \<Rightarrow> vec \<Rightarrow> pyerr + vec \<times> matrix" where
  "mean_and_factor_qr lib Sgm dv =
     (case sl_qr lib Sgm of
        (Q, R) \<Rightarrow>
          (case sl_solve lib R (transpose Q) of
             Inl e \<Rightarrow> Inl e
           | Inr Sigi \<Rightarrow>
               (case mat_vec Sigi dv of
                  Inl e \<Rightarrow> Inl e
                | Inr mn \<Rightarrow>
                    (case sl_svd lib Sigi of
                       Inl e \<Rightarrow> Inl e
                     | Inr (u, s) \<Rightarrow>
                         (case scale_cols u s of Inl e \<Rightarrow> Inl e | Inr Li \<Rightarrow> Inr (mn, Li))))))"

text \<open>
  \<open>update_b\<close> returns the new latent vector, \<open>mn + Li z\<close> for standard normal draws
  \<open>z\<close>, and the object with its cache filled.
\<close>

definition update_b :: "numlib \<Rightarrow> gibbs \<Rightarrow> (nat \<Rightarrow> real) \<Rightarrow> vec \<Rightarrow> pyerr + vec \<times> gibbs" where
  "update_b lib g z xs =
     (case map_params g xs of
        Inl e \<Rightarrow> Inl e
      | Inr ps \<Rightarrow>
          (let Nvec = get_ndiag (pta g) ps;
               phiinv = fst (get_phiinv (pta g) ps);
               T = get_basis (pta g) ps
           in case fill_cache g T Nvec of
                Inl e \<Rightarrow> Inl e
              | Inr g' \<Rightarrow>
                  (case get_Sigma g' phiinv of
                     Inl e \<Rightarrow> Inl e
                   | Inr (Sgm, dv) \<Rightarrow>
                       (case (case mean_and_factor_svd lib Sgm dv of
                                Inl LinAlgError \<Rightarrow> mean_and_factor_qr lib Sgm dv
                              | r \<Rightarrow> r) of
                          Inl e \<Rightarrow> Inl e
                        | Inr (mn, Li) \<Rightarrow>
                            (case mat_vec Li (map z [0..<length Li]) of
                               Inl e \<Rightarrow> Inl e
                             | Inr Lz \<Rightarrow>
                                 (case np_zip (+) mn Lz of
                                    Inl e \<Rightarrow> Inl e
                                  | Inr bnew \<Rightarrow> Inr (bnew, g')))))))"

section \<open>The red-noise block\<close>

definition get_lnlikelihood_red :: "gibbs \<Rightarrow> vec \<Rightarrow> pyerr + lnval" where
  "get_lnlikelihood_red g xs =
     (case map_params g xs of
        Inl e \<Rightarrow> Inl e
      | Inr ps \<Rightarrow>
          (case get_tau g of
             Inl e \<Rightarrow> Inl e
           | Inr tau \<Rightarrow>
               (case (red_sig g, gw_sig g) of
                  (Some rs, Some gs) \<Rightarrow>
                    (case np_zip (\<lambda>i w. logaddexp (ln i) (ln w))
                            (evens (get_phi rs ps)) (evens (get_phi gs ps)) of
                       Inl e \<Rightarrow> Inl e
                     | Inr den \<Rightarrow>
                         (case np_zip (\<lambda>t dn. let logratio = ln t - dn in logratio - exp logratio)
                                 tau den of
                            Inl e \<Rightarrow> Inl e
                          | Inr terms \<Rightarrow> Inr (Fin (sum_list terms))))
                | _ \<Rightarrow> Inl AttributeError)))"

text \<open>
  The external engine: its long exploratory run and its single step, each given the
  target log-likelihood and log-prior and a seed for its random numbers.
\<close>

record ptlib =
  pt_sample ::
    "ptsampler \<Rightarrow> (vec \<Rightarrow> pyerr + lnval) \<Rightarrow> (vec \<Rightarrow> pyerr + lnval) \<Rightarrow> vec \<Rightarrow> nat \<Rightarrow> nat \<Rightarrow>
     pyerr + ptsampler"
  PTMCMCOneStep ::
    "ptsampler \<Rightarrow> (vec \<Rightarrow> pyerr + lnval) \<Rightarrow> (vec \<Rightarrow> pyerr + lnval) \<Rightarrow> vec \<Rightarrow> lnval \<Rightarrow> lnval \<Rightarrow>
     nat \<Rightarrow> pyerr + vec"

text \<open>\<open>cov[rind, :][:, rind]\<close>.\<close>

definition sub_matrix :: "matrix \<Rightarrow> nat list \<Rightarrow> pyerr + matrix" where
  "sub_matrix M idx =
     (if \<exists>i \<in> set idx. length M \<le> i then Inl IndexError
      else select_cols (map (\<lambda>i. M ! i) idx) idx)"

definition identity_cov :: "nat \<Rightarrow> matrix" where
  "identity_cov n = map (\<lambda>i. map (\<lambda>j. if i = j then 0.01 else 0) [0..<n]) [0..<n]"

text \<open>The production steps: \<open>lnlike0\<close> and \<open>lnprob0\<close> are those of the starting point.\<close>

fun pt_steps ::
  "ptlib \<Rightarrow> ptsampler \<Rightarrow> (vec \<Rightarrow> pyerr + lnval) \<Rightarrow> (vec \<Rightarrow> pyerr + lnval) \<Rightarrow> lnval \<Rightarrow> lnval \<Rightarrow>
   nat \<Rightarrow> nat \<Rightarrow> vec \<Rightarrow> pyerr + vec" where
  "pt_steps ptl eng logl logp lnlike0 lnprob0 seed 0 x = Inr x"
| "pt_steps ptl eng logl logp lnlike0 lnprob0 seed (Suc n) x =
     (case PTMCMCOneStep ptl eng logl logp x lnlike0 lnprob0 seed of
        Inl e \<Rightarrow> Inl e
      | Inr x' \<Rightarrow> pt_steps ptl eng logl logp lnlike0 lnprob0 (Suc seed) n x')"

definition tune_red ::
  "numlib \<Rightarrow> ptlib \<Rightarrow> gibbs \<Rightarrow> nat \<Rightarrow> vec \<Rightarrow> nat \<Rightarrow> pyerr + vec \<times> gibbs" where
  "tune_red lib ptl g seed x n =
     (case get_lnlikelihood_fullmarg lib g x of
        Inl e \<Rightarrow> Inl e
      | Inr (lnlike0, g1) \<Rightarrow>
          (case get_lnprior g1 x of
             Inl e \<Rightarrow> Inl e
           | Inr lp \<Rightarrow>
               (let logl = (\<lambda>y. map_sum id fst (get_lnlikelihood_fullmarg lib g1 y));
                    logp = get_lnprior g1;
                    eng0 = \<lparr> pt_ndim = length x, pt_cov = identity_cov (length x),
                             pt_groups = None, pt_U = [], pt_S = [], pt_logl_red = False \<rparr>
                in case pt_sample ptl eng0 logl logp x n seed of
                     Inl e \<Rightarrow> Inl e
                   | Inr eng1 \<Rightarrow>
                       (case PTMCMCOneStep ptl eng1 logl logp x lnlike0 (ln_add lnlike0 lp)
                               (Suc seed) of
                          Inl e \<Rightarrow> Inl e
                        | Inr x' \<Rightarrow>
                            (case sub_matrix (pt_cov eng1) (get_red_param_indices g1) of
                               Inl e \<Rightarrow> Inl e
                             | Inr cov' \<Rightarrow>
                                 (case np_linalg_svd lib (Some cov') of
                                    Inl e \<Rightarrow> Inl e
                                  | Inr (U0, S0) \<Rightarrow>
                                      Inr (x',
                                           g1\<lparr>ptsampler_rn :=
                                                Some (eng1\<lparr>pt_groups :=
                                                              Some [get_red_param_indices g1],
                                                            pt_cov := cov', pt_U := [U0],
                                                            pt_S := [S0],
                                                            pt_logl_red := True\<rparr>)\<rparr>)))))))"

definition update_red_params ::
  "numlib \<Rightarrow> ptlib \<Rightarrow> gibbs \<Rightarrow> nat \<Rightarrow> heap \<Rightarrow> addr \<Rightarrow> nat option \<Rightarrow>
   pyerr + addr \<times> heap \<times> gibbs" where
  "update_red_params lib ptl g seed h xs iters =
     (let (h1, xnew) = alloc h (h ! xs)
      in case iters of
           Some n \<Rightarrow>
             (case tune_red lib ptl g seed (h1 ! xnew) n of
                Inl e \<Rightarrow> Inl e
              | Inr (x', g') \<Rightarrow> (case alloc h1 x' of (h2, a) \<Rightarrow> Inr (a, h2, g')))
         | None \<Rightarrow>
             (case get_lnlikelihood_red g (h1 ! xnew) of
                Inl e \<Rightarrow> Inl e
              | Inr lnlike0 \<Rightarrow>
                  (case get_lnprior g (h1 ! xnew) of
                     Inl e \<Rightarrow> Inl e
                   | Inr lp \<Rightarrow>
                       (case ptsampler_rn g of
                          None \<Rightarrow> Inl AttributeError
                        | Some eng \<Rightarrow>
                            (case pt_steps ptl eng (get_lnlikelihood_red g) (get_lnprior g)
                                    lnlike0 (ln_add lnlike0 lp) seed 20 (h1 ! xnew) of
                               Inl e \<Rightarrow> Inl e
                             | Inr x' \<Rightarrow> (case alloc h1 x' of (h2, a) \<Rightarrow> Inr (a, h2, g)))))))"

section \<open>The Gibbs loop\<close>

text \<open>
  The output directory: a file holds lines of text (\<open>np.savetxt\<close> of names), a text
  array (what \<open>np.loadtxt\<close> reads) or a binary array (\<open>np.save\<close>). The directory also
  keeps the journal of the \<open>np.save\<close> calls, each with the iteration that made it.
\<close>

datatype filedata = TextLines "string list" | TextArray matrix | NpyArray matrix

record filesys =
  contents :: "string \<rightharpoonup> filedata"
  np_save_log :: "(nat \<times> string) list"

text \<open>The random numbers of a run, by outer iteration.\<close>

record sample_rand =
  z_first :: "nat \<Rightarrow> real"
  z_redraw :: "nat \<Rightarrow> nat \<Rightarrow> real"
  mh_draws :: "nat \<Rightarrow> nat \<Rightarrow> mh_draw"
  rho_draws :: "nat \<Rightarrow> rho_rand"
  pt_seed :: "nat \<Rightarrow> nat"

text \<open>
  The state of a run: the object, the store, the address held by the local variable
  \<open>xnew\<close>, and the output directory.
\<close>

record run =
  run_self :: gibbs
  run_heap :: heap
  run_xnew :: addr
  run_files :: filesys

text \<open>
  \<open>M[ii, :] = v\<close>: the row is replaced by \<open>v\<close>, a vector of length one is broadcast
  over the row, any other length raises \<open>ValueError\<close>.
\<close>

definition assign_row :: "matrix \<Rightarrow> nat \<Rightarrow> vec \<Rightarrow> pyerr + matrix" where
  "assign_row M ii v =
     (if length M \<le> ii then Inl IndexError
      else if length v = length (M ! ii) then Inr (M[ii := v])
      else if length v = 1 then Inr (M[ii := replicate (length (M ! ii)) (hd v)])
      else Inl ValueError)"

text \<open>The first two statements of the loop body, and \<open>self.iter = ii\<close>.\<close>

definition record_state :: "gibbs \<Rightarrow> nat \<Rightarrow> vec \<Rightarrow> pyerr + gibbs" where
  "record_state g ii x =
     (case assign_row (chain g) ii x of
        Inl e \<Rightarrow> Inl e
      | Inr c \<Rightarrow>
          (case assign_row (bchain g) ii (self_b g) of
             Inl e \<Rightarrow> Inl e
           | Inr bc \<Rightarrow> Inr (g\<lparr>iter := ii, chain := c, bchain := bc\<rparr>)))"

text \<open>
  On the first iteration the latent vector is drawn from the initial parameters
  \<open>xs\<close>; then the cache is cleared.
\<close>

definition first_draw :: "numlib \<Rightarrow> gibbs \<Rightarrow> (nat \<Rightarrow> real) \<Rightarrow> nat \<Rightarrow> vec \<Rightarrow> pyerr + gibbs" where
  "first_draw lib g z ii xs =
     (if ii = 0
      then
        (case update_b lib g z xs of
           Inl e \<Rightarrow> Inl e
         | Inr (bnew, g') \<Rightarrow> Inr (g'\<lparr>self_b := bnew, TNT := None, self_d := None\<rparr>))
      else Inr (g\<lparr>TNT := None, self_d := None\<rparr>))"

text \<open>The four blocks, each skipped when its index set is empty.\<close>

definition white_block ::
  "numlib \<Rightarrow> sample_rand \<Rightarrow> nat \<Rightarrow> addr \<times> heap \<times> gibbs \<Rightarrow> pyerr + addr \<times> heap \<times> gibbs" where
  "white_block lib rnd ii s =
     (case s of (a, h, g) \<Rightarrow>
        if get_efacequad_indices g \<noteq> []
        then update_white_params lib g (mh_draws rnd ii) h a (if ii = 0 then Some 1000 else None)
        else Inr s)"

definition ecorr_block :: "addr \<times> heap \<times> gibbs \<Rightarrow> pyerr + addr \<times> heap \<times> gibbs" where
  "ecorr_block s =
     (case s of (a, h, g) \<Rightarrow>
        if get_ecorr_indices g \<noteq> []
        then Inr (a, h, g\<lparr>stdout := stdout g @ [''ERROR: No ECORR for now...'']\<rparr>)
        else Inr s)"

definition red_block ::
  "numlib \<Rightarrow> ptlib \<Rightarrow> sample_rand \<Rightarrow> nat \<Rightarrow> addr \<times> heap \<times> gibbs \<Rightarrow>
   pyerr + addr \<times> heap \<times> gibbs" where
  "red_block lib ptl rnd ii s =
     (case s of (a, h, g) \<Rightarrow>
        if get_red_param_indices g \<noteq> []
        then update_red_params lib ptl g (pt_seed rnd ii) h a
               (if ii = 0 then Some 10000 else None)
        else Inr s)"

definition gwrho_block ::
  "sample_rand \<Rightarrow> nat \<Rightarrow> addr \<times> heap \<times> gibbs \<Rightarrow> pyerr + addr \<times> heap \<times> gibbs" where
  "gwrho_block rnd ii s =
     (case s of (a, h, g) \<Rightarrow>
        if get_gwrho_param_indices g \<noteq> []
        then update_gwrho_params g (rho_draws rnd ii) h a
        else Inr s)"

definition run_blocks ::
  "numlib \<Rightarrow> ptlib \<Rightarrow> sample_rand \<Rightarrow> nat \<Rightarrow> addr \<times> heap \<times> gibbs \<Rightarrow>
   pyerr + addr \<times> heap \<times> gibbs" where
  "run_blocks lib ptl rnd ii s =
     (case white_block lib rnd ii s of
        Inl e \<Rightarrow> Inl e
      | Inr s1 \<Rightarrow>
          (case ecorr_block s1 of
             Inl e \<Rightarrow> Inl e
           | Inr s2 \<Rightarrow>
               (case red_block lib ptl rnd ii s2 of
                  Inl e \<Rightarrow> Inl e
                | Inr s3 \<Rightarrow> gwrho_block rnd ii s3)))"

text \<open>
  The test \<open>np.all(xnew != self.chain[ii, -1])\<close>: \<open>self.chain[ii, -1]\<close> is the last
  entry of row \<open>ii\<close>, a scalar (an \<open>IndexError\<close> in a row of width zero), which is
  compared with every entry of \<open>xnew\<close>.
\<close>

definition redraw_test :: "vec \<Rightarrow> vec \<Rightarrow> pyerr + bool" where
  "redraw_test x row = (if row = [] then Inl IndexError else Inr (list_all (\<lambda>v. v \<noteq> last row) x))"

definition redraw_b :: "numlib \<Rightarrow> gibbs \<Rightarrow> (nat \<Rightarrow> real) \<Rightarrow> nat \<Rightarrow> vec \<Rightarrow> pyerr + gibbs" where
  "redraw_b lib g z ii x =
     (case redraw_test x (chain g ! ii) of
        Inl e \<Rightarrow> Inl e
      | Inr yes \<Rightarrow>
          if yes
          then
            (case update_b lib g z x of
               Inl e \<Rightarrow> Inl e
             | Inr (bnew, g') \<Rightarrow> Inr (g'\<lparr>self_b := bnew\<rparr>))
          else Inr g)"

text \<open>The last statement of the loop body: the two \<open>np.save\<close> calls.\<close>

definition checkpoint :: "gibbs \<Rightarrow> string \<Rightarrow> nat \<Rightarrow> filesys \<Rightarrow> filesys" where
  "checkpoint g outdir ii fs =
     (if ii mod 100 = 0 \<and> 0 < ii
      then fs\<lparr>contents :=
                 (contents fs)
                   (outdir @ ''/chain.npy'' \<mapsto> NpyArray (take (ii + 1) (chain g)),
                    outdir @ ''/bchain.npy'' \<mapsto> NpyArray (take (ii + 1) (bchain g))),
               np_save_log :=
                 np_save_log fs @ [(ii, outdir @ ''/chain.npy''), (ii, outdir @ ''/bchain.npy'')]\<rparr>
      else fs)"

text \<open>One iteration of the loop; \<open>xs\<close> is the address of the initial parameters.\<close>

definition sample_iter ::
  "numlib \<Rightarrow> ptlib \<Rightarrow> sample_rand \<Rightarrow> addr \<Rightarrow> string \<Rightarrow> nat \<Rightarrow> run \<Rightarrow> pyerr + run" where
  "sample_iter lib ptl rnd xs outdir ii r =
     (case record_state (run_self r) ii (run_heap r ! run_xnew r) of
        Inl e \<Rightarrow> Inl e
      | Inr g1 \<Rightarrow>
          (case first_draw lib g1 (z_first rnd) ii (run_heap r ! xs) of
             Inl e \<Rightarrow> Inl e
           | Inr g2 \<Rightarrow>
               (case run_blocks lib ptl rnd ii (run_xnew r, run_heap r, g2) of
                  Inl e \<Rightarrow> Inl e
                | Inr (a, h, g3) \<Rightarrow>
                    (case redraw_b lib g3 (z_redraw rnd ii) ii (h ! a) of
                       Inl e \<Rightarrow> Inl e
                     | Inr g4 \<Rightarrow>
                         Inr \<lparr> run_self = g4, run_heap = h, run_xnew = a,
                               run_files = checkpoint g4 outdir ii (run_files r) \<rparr>))))"

text \<open>
  The loop \<open>for ii in range(startLength, niter)\<close>, by the number of iterations left.
  An exception ends the run; the directory is then as the last finished iteration
  left it, since the files are written last in an iteration.
\<close>

fun sample_loop ::
  "numlib \<Rightarrow> ptlib \<Rightarrow> sample_rand \<Rightarrow> addr \<Rightarrow> string \<Rightarrow> nat \<Rightarrow> nat \<Rightarrow> run \<Rightarrow>
   pyerr \<times> filesys + run" where
  "sample_loop lib ptl rnd xs outdir ii 0 r = Inr r"
| "sample_loop lib ptl rnd xs outdir ii (Suc n) r =
     (case sample_iter lib ptl rnd xs outdir ii r of
        Inl e \<Rightarrow> Inl (e, run_files r)
      | Inr r' \<Rightarrow> sample_loop lib ptl rnd xs outdir (Suc ii) n r')"

text \<open>
  The array that \<open>np.loadtxt\<close> returns has no axis of length one: a file of several
  rows and several columns gives a two-dimensional array (kept here with its number
  of columns), a file of one row or of one column a one-dimensional array, a file of
  one number an array of dimension zero, an empty file an empty one-dimensional
  array. Rows of different lengths raise \<open>ValueError\<close>.
\<close>

datatype ndarray = Arr0 real | Arr1 vec | Arr2 nat matrix

definition squeeze_rows :: "matrix \<Rightarrow> pyerr + ndarray" where
  "squeeze_rows rows =
     (case rows of
        [] \<Rightarrow> Inr (Arr1 [])
      | r # rs \<Rightarrow>
          if list_all (\<lambda>r'. length r' = length r) rs
          then
            (if rs = [] then (case r of [x] \<Rightarrow> Inr (Arr0 x) | _ \<Rightarrow> Inr (Arr1 r))
             else if length r = 1 then Inr (Arr1 (map hd (r # rs)))
             else Inr (Arr2 (length r) (r # rs)))
          else Inl ValueError)"

text \<open>
  \<open>np.loadtxt\<close> of a path: the file must exist and hold a text array (the rows of
  numbers of the file, in order).
\<close>

definition loadtxt :: "filesys \<Rightarrow> string \<Rightarrow> pyerr + ndarray" where
  "loadtxt fs path =
     (case contents fs path of
        None \<Rightarrow> Inl FileNotFoundError
      | Some (TextArray m) \<Rightarrow> squeeze_rows m
      | Some _ \<Rightarrow> Inl ValueError)"

text \<open>\<open>tmp.shape[0]\<close>: an array of dimension zero has an empty shape.\<close>

definition shape0 :: "ndarray \<Rightarrow> pyerr + nat" where
  "shape0 a =
     (case a of
        Arr0 x \<Rightarrow> Inl IndexError
      | Arr1 v \<Rightarrow> Inr (length v)
      | Arr2 c rows \<Rightarrow> Inr (length rows))"

text \<open>\<open>tmp[:n]\<close>, a slice of the first axis.\<close>

definition take_rows :: "nat \<Rightarrow> ndarray \<Rightarrow> pyerr + ndarray" where
  "take_rows n a =
     (case a of
        Arr0 x \<Rightarrow> Inl IndexError
      | Arr1 v \<Rightarrow> Inr (Arr1 (take n v))
      | Arr2 c rows \<Rightarrow> Inr (Arr2 c (take n rows)))"

text \<open>
  \<open>M[:tmp.shape[0]] = tmp\<close> for a buffer \<open>M\<close> of rows of width \<open>w\<close>. The slice of
  \<open>M\<close> has as many rows as \<open>tmp\<close> has entries along its first axis, or all the rows
  of \<open>M\<close> if these are fewer, and \<open>tmp\<close> is broadcast to the shape of the slice: a
  one-dimensional \<open>tmp\<close> must have \<open>w\<close> entries or one and fills every row of the
  slice; a two-dimensional \<open>tmp\<close> must have the rows of the slice, or one row, and
  \<open>w\<close> columns or one. Anything else raises \<open>ValueError\<close>.
\<close>

definition bcast_row :: "nat \<Rightarrow> vec \<Rightarrow> vec" where
  "bcast_row w v = (if length v = w then v else replicate w (hd v))"

definition assign_prefix :: "nat \<Rightarrow> matrix \<Rightarrow> ndarray \<Rightarrow> pyerr + matrix" where
  "assign_prefix w M tmp =
     (case tmp of
        Arr0 x \<Rightarrow> Inl IndexError
      | Arr1 v \<Rightarrow>
          if length v = w \<or> length v = 1
          then Inr (replicate (min (length v) (length M)) (bcast_row w v) @ drop (length v) M)
          else Inl ValueError
      | Arr2 c rows \<Rightarrow>
          if (length rows \<le> length M \<or> length rows = 1) \<and> (c = w \<or> c = 1)
          then Inr (map (bcast_row w) (take (length M) rows) @ drop (length rows) M)
          else Inl ValueError)"

text \<open>\<open>M[k]\<close> for a Python integer \<open>k\<close>: a negative index counts from the end.\<close>

definition py_row :: "matrix \<Rightarrow> int \<Rightarrow> pyerr + vec" where
  "py_row M k =
     (let n = int (length M); j = (if k < 0 then n + k else k)
      in if 0 \<le> j \<and> j < n then Inr (M ! nat j) else Inl IndexError)"

text \<open>
  The resume branch. It reads \<open>chain.txt\<close> and \<open>bchain.txt\<close>, keeps their common
  length along the first axis, copies them into the buffers (of widths \<open>w\<close> and
  \<open>wb\<close>) and restarts from the last of these rows. \<open>xnew\<close> is a view of that row;
  nothing writes the row or the view afterwards, so the model gives it an array of
  its own.
\<close>

definition resume_from ::
  "gibbs \<Rightarrow> heap \<Rightarrow> nat \<Rightarrow> nat \<Rightarrow> string \<Rightarrow> filesys \<Rightarrow>
   pyerr + gibbs \<times> heap \<times> addr \<times> nat" where
  "resume_from g h w wb outdir fs =
     (case loadtxt fs (outdir @ ''/chain.txt'') of
        Inl e \<Rightarrow> Inl e
      | Inr c \<Rightarrow>
          (case loadtxt fs (outdir @ ''/bchain.txt'') of
             Inl e \<Rightarrow> Inl e
           | Inr bc \<Rightarrow>
               (case shape0 c of
                  Inl e \<Rightarrow> Inl e
                | Inr n \<Rightarrow>
                    (case shape0 bc of
                       Inl e \<Rightarrow> Inl e
                     | Inr nb \<Rightarrow>
                         (let minLength = min n nb
                          in case take_rows minLength c of
                               Inl e \<Rightarrow> Inl e
                             | Inr tc \<Rightarrow>
                                 (case take_rows minLength bc of
                                    Inl e \<Rightarrow> Inl e
                                  | Inr tbc \<Rightarrow>
                                      (case assign_prefix w (chain g) tc of
                                         Inl e \<Rightarrow> Inl e
                                       | Inr c' \<Rightarrow>
                                           (case assign_prefix wb (bchain g) tbc of
                                              Inl e \<Rightarrow> Inl e
                                            | Inr bc' \<Rightarrow>
                                                (case py_row c' (int minLength - 1) of
                                                   Inl e \<Rightarrow> Inl e
                                                 | Inr row \<Rightarrow>
                                                     (case alloc h row of
                                                        (h', a) \<Rightarrow>
                                                          Inr (g\<lparr>chain := c', bchain := bc'\<rparr>,
                                                               h', a, minLength)))))))))))"

text \<open>The two \<open>np.savetxt\<close> calls that open \<open>sample\<close>.\<close>

definition write_names :: "gibbs \<Rightarrow> string \<Rightarrow> filesys \<Rightarrow> filesys" where
  "write_names g outdir fs =
     fs\<lparr>contents :=
          (contents fs)
            (outdir @ ''/pars_chain.txt'' \<mapsto> TextLines (param_names g),
             outdir @ ''/pars_bchain.txt'' \<mapsto> TextLines (b_param_names g))\<rparr>"

text \<open>
  \<open>sample\<close>: the names are written, the buffers are zeroed, the resume branch runs
  if asked, and the loop runs from \<open>startLength\<close> to \<open>niter\<close>.
\<close>

definition sample ::
  "numlib \<Rightarrow> ptlib \<Rightarrow> sample_rand \<Rightarrow> gibbs \<Rightarrow> heap \<Rightarrow> addr \<Rightarrow> string \<Rightarrow> nat \<Rightarrow> bool \<Rightarrow>
   filesys \<Rightarrow> pyerr \<times> filesys + run" where
  "sample lib ptl rnd g h xs outdir niter resume fs =
     (let fs1 = write_names g outdir fs;
          g1 = g\<lparr>stdout := stdout g @ [''Creating chain directory: '' @ outdir],
                 chain := replicate niter (replicate (length (h ! xs)) 0),
                 bchain := replicate niter (replicate (length (self_b g)) 0),
                 iter := 0\<rparr>
      in if resume
         then
           (case resume_from (g1\<lparr>stdout := stdout g1 @ [''Resuming from previous run...'']\<rparr>)
                   h (length (h ! xs)) (length (self_b g)) outdir fs1 of
              Inl e \<Rightarrow> Inl (e, fs1)
            | Inr (g2, h', a, startLength) \<Rightarrow>
                sample_loop lib ptl rnd xs outdir startLength (niter - startLength)
                  \<lparr> run_self = g2, run_heap = h', run_xnew = a, run_files = fs1 \<rparr>)
         else
           sample_loop lib ptl rnd xs outdir 0 niter
             \<lparr> run_self = g1, run_heap = h, run_xnew = xs, run_files = fs1 \<rparr>)"

section \<open>Example model\<close>

text \<open>
  A small model used to run the definitions: one pulsar observed twice, a white-noise
  parameter and one free-spectrum frequency (two latent coefficients).
\<close>

definition efac_param :: param where
  "efac_param = \<lparr> p_name = ''J0000_efac'', p_size = None, p_prior = Inr (0, 10),
                  get_logpdf = (\<lambda>_. Fin 0) \<rparr>"

definition rho_param1 :: param where
  "rho_param1 = \<lparr> p_name = ''gw_log10_rho'', p_size = Some 1, p_prior = Inr (-1, 0),
                  get_logpdf = (\<lambda>_. Fin 0) \<rparr>"

definition gw_signal :: signal where
  "gw_signal = \<lparr> sig_key = ''J0000_gw'', sig_class = ''FourierBasisGP'',
                 sig_name = ''J0000_gw'', sig_width = Some 2, get_phi = (\<lambda>_. [1, 1]) \<rparr>"

definition white_signal :: signal where
  "white_signal = \<lparr> sig_key = ''J0000_measurement_noise'', sig_class = ''MeasurementNoise'',
                    sig_name = ''J0000_measurement_noise'', sig_width = None,
                    get_phi = (\<lambda>_. []) \<rparr>"

definition kernel_signal :: signal where
  "kernel_signal = \<lparr> sig_key = ''J0000_ecorr'', sig_class = ''EcorrKernelNoise'',
                     sig_name = ''J0000_ecorr'', sig_width = None, get_phi = (\<lambda>_. []) \<rparr>"

definition demo_pta :: pta where
  "demo_pta = \<lparr> pulsars = [''J0000''], signals = [white_signal, gw_signal],
                params = [efac_param, rho_param1], get_residuals = [1, 2],
                get_basis = (\<lambda>_. [[1, 0], [0, 1]]), get_ndiag = (\<lambda>_. [1, 1]),
                get_phiinv = (\<lambda>_. ([1, 1], 0)) \<rparr>"

definition no_rho_rand :: rho_rand where
  "no_rho_rand = \<lparr> uniform01 = (\<lambda>_. 0), gumbel = (\<lambda>_ _. 0) \<rparr>"

text \<open>The object that the constructor builds over the example model.\<close>

definition demo_gibbs :: "string \<Rightarrow> gibbs" where
  "demo_gibbs hs =
     \<lparr> pta = demo_pta, pulsar_name = ''J0000'', hypersample = hs, ecorrsample = ''mh'',
       residuals = [1, 2], self_b = [0, 0], TNT = None, self_d = None,
       rhomin = 10 powr (2 * (-1)), rhomax = 10 powr (2 * 0),
       b_param_names = [''J0000_gw_0'', ''J0000_gw_1''],
       gwid = Some [0, 1], ecid = None, ecorr_bounds = None, ecorr_inds_sel = None,
       red_sig = None, gw_sig = Some gw_signal, aclength_white = None,
       ptsampler_rn = None, chain = [], bchain = [], iter = 0, stdout = [''Basis count is good''] \<rparr>"

text \<open>The same model with a second white-noise parameter.\<close>

definition equad_param :: param where
  "equad_param = \<lparr> p_name = ''J0000_log10_equad'', p_size = None, p_prior = Inr (-8, -5),
                   get_logpdf = (\<lambda>_. Fin 0) \<rparr>"

definition demo2_pta :: pta where
  "demo2_pta = demo_pta\<lparr>params := [efac_param, equad_param, rho_param1]\<rparr>"

definition demo2_gibbs :: "string \<Rightarrow> gibbs" where
  "demo2_gibbs hs = (demo_gibbs hs)\<lparr>pta := demo2_pta\<rparr>"

text \<open>A model whose \<open>Sigma\<close> is singular: the second basis column is zero and has no prior weight.\<close>

definition degenerate_pta :: pta where
  "degenerate_pta = demo_pta\<lparr>get_basis := (\<lambda>_. [[1, 0], [0, 0]]),
                              get_phiinv := (\<lambda>_. ([1, 0], 0))\<rparr>"

text \<open>
  Numerical routines for the example, exact on the diagonal matrices it produces; the
  autocorrelation estimator returns one half.
\<close>

definition diag_cho_factor :: "matrix \<Rightarrow> pyerr + matrix" where
  "diag_cho_factor M =
     (if \<exists>(k, r) \<in> set (enumerate 0 M). r ! k \<le> 0 then Inl LinAlgError
      else Inr (map (\<lambda>(k, r). r[k := sqrt (r ! k)]) (enumerate 0 M)))"

definition demo_lib :: numlib where
  "demo_lib = \<lparr> acor = (\<lambda>_. Inr (1/2)),
               np_linalg_svd = (\<lambda>_. Inr ([], [])),
               sl_svd = (\<lambda>M. Inr (map (\<lambda>(k, r). r[k := 1]) (enumerate 0 M),
                                  map (\<lambda>(k, r). r ! k) (enumerate 0 M))),
               sl_qr = (\<lambda>M. (map (\<lambda>(k, r). r[k := 1]) (enumerate 0 M), M)),
               sl_solve = (\<lambda>_ _. Inl LinAlgError),
               cho_factor = diag_cho_factor,
               cho_solve = (\<lambda>cf v. Inr (map (\<lambda>((k, r), x). x / (r ! k) ^ 2)
                                          (zip (enumerate 0 cf) v))) \<rparr>"

definition demo_draws :: "nat \<Rightarrow> mh_draw" where
  "demo_draws k = \<lparr> scale_ix = 2, par_ix = k, normal = 1, accept_u = 0 \<rparr>"

text \<open>A model with the free-spectrum parameter only, and one with red-noise parameters.\<close>

definition rho_pta :: pta where
  "rho_pta = demo_pta\<lparr>params := [rho_param1]\<rparr>"

definition rho_gibbs :: "string \<Rightarrow> gibbs" where
  "rho_gibbs hs = (demo_gibbs hs)\<lparr>pta := rho_pta\<rparr>"

definition red_A_param :: param where
  "red_A_param = \<lparr> p_name = ''J0000_red_noise_log10_A'', p_size = None, p_prior = Inr (-20, -11),
                   get_logpdf = (\<lambda>_. Fin 0) \<rparr>"

definition red_gamma_param :: param where
  "red_gamma_param = \<lparr> p_name = ''J0000_red_noise_gamma'', p_size = None, p_prior = Inr (0, 7),
                       get_logpdf = (\<lambda>_. Fin 0) \<rparr>"

definition red_signal :: signal where
  "red_signal = \<lparr> sig_key = ''J0000_red_noise'', sig_class = ''FourierBasisGP'',
                  sig_name = ''J0000_red_noise'', sig_width = Some 2, get_phi = (\<lambda>_. [1, 1]) \<rparr>"

definition red_pta :: pta where
  "red_pta = demo_pta\<lparr>signals := [white_signal, red_signal, gw_signal],
                       params := [red_A_param, red_gamma_param, rho_param1]\<rparr>"

definition red_gibbs :: "string \<Rightarrow> gibbs" where
  "red_gibbs hs = (demo_gibbs hs)\<lparr>pta := red_pta, red_sig := Some red_signal\<rparr>"

text \<open>
  An engine for the example: its exploratory run leaves it as it was, and each of its
  steps moves the first parameter by one.
\<close>

definition demo_ptl :: ptlib where
  "demo_ptl = \<lparr> pt_sample = (\<lambda>eng logl logp x n seed. Inr eng),
               PTMCMCOneStep = (\<lambda>eng logl logp x l p seed. Inr (x[0 := x ! 0 + 1])) \<rparr>"

text \<open>Random numbers for the example: every normal and uniform variate is zero.\<close>

definition demo_rand :: sample_rand where
  "demo_rand = \<lparr> z_first = (\<lambda>_. 0), z_redraw = (\<lambda>_ _. 0), mh_draws = (\<lambda>_. demo_draws),
                rho_draws = (\<lambda>_. no_rho_rand), pt_seed = (\<lambda>ii. ii) \<rparr>"

definition empty_fs :: filesys where
  "empty_fs = \<lparr> contents = Map.empty, np_save_log = [] \<rparr>"

text \<open>The example run with a second stream of normal variates for the redraw.\<close>

definition demo_rand1 :: sample_rand where
  "demo_rand1 = demo_rand\<lparr>z_redraw := (\<lambda>_ _. 1)\<rparr>"

text \<open>
  The state in which the loop starts over the model with the free-spectrum parameter
  only, and what every later state of that run has in common.
\<close>

definition rho_run0 :: "nat \<Rightarrow> run" where
  "rho_run0 N = \<lparr> run_self = (rho_gibbs ''conditional'')\<lparr>chain := replicate N [0],
                                   bchain := replicate N [0, 0]\<rparr>,
                  run_heap = [[- 1 / 2]], run_xnew = 0, run_files = empty_fs \<rparr>"

definition rho_obj :: "gibbs \<Rightarrow> bool" where
  "rho_obj g = (pta g = rho_pta \<and> residuals g = [1, 2] \<and> hypersample g = ''conditional''
                \<and> gwid g = Some [0, 1] \<and> red_sig g = None \<and> rhomax g = 1)"

definition rho_inv :: "nat \<Rightarrow> addr \<Rightarrow> nat \<Rightarrow> run \<Rightarrow> bool" where
  "rho_inv N xs ii r =
     (rho_obj (run_self r)
      \<and> length (chain (run_self r)) = N \<and> length (bchain (run_self r)) = N
      \<and> (\<forall>j < N. length (chain (run_self r) ! j) = 1 \<and> length (bchain (run_self r) ! j) = 2)
      \<and> run_xnew r < length (run_heap r) \<and> length (run_heap r ! run_xnew r) = 1
      \<and> xs < length (run_heap r) \<and> length (run_heap r ! xs) = 1
      \<and> (if ii = 0
          then TNT (run_self r) = None \<and> self_d (run_self r) = None
               \<and> length (self_b (run_self r)) = 2
          else self_b (run_self r) = [1/2, 1] \<and> run_heap r ! run_xnew r = [0]))"

text \<open>
  Four binary64 numbers: the double nearest to 0.396104953128904, a value of the
  variance statistic; \<open>10**0.5\<close> and \<open>10**-2.0\<close>, the bounds of a prior on
  \<open>log10_rho\<close> from -1 to 0.25; and the double nearest to \<open>1e-300\<close>.
\<close>

definition tau_dbl :: real where
  "tau_dbl = 7135592477243759 / 2 ^ 54"

definition rhomax_dbl :: real where
  "rhomax_dbl = 7120816245988179 / 2 ^ 51"

definition rhomin_dbl :: real where
  "rhomin_dbl = 5764607523034235 / 2 ^ 59"

definition eta_dbl :: real where
  "eta_dbl = 6032057205060441 / 2 ^ 1049"

section \<open>Specification predicates\<close>

text \<open>
  What a block update may change: it leaves every array of the store it was given
  as it was, its argument among them; the array it returns has the length of the
  argument and agrees with it at every position outside the index set of the block.
\<close>

definition frame_ok :: "nat list \<Rightarrow> heap \<Rightarrow> addr \<Rightarrow> heap \<Rightarrow> addr \<Rightarrow> bool" where
  "frame_ok idx h xs h' a =
     (length h \<le> length h' \<and> (\<forall>k < length h. h' ! k = h ! k) \<and> h' ! xs = h ! xs
      \<and> a < length h' \<and> length (h' ! a) = length (h ! xs)
      \<and> (\<forall>i < length (h ! xs). i \<notin> set idx \<longrightarrow> h' ! a ! i = h ! xs ! i))"

text \<open>The directory that a call of \<open>sample\<close> leaves, whether it returns or raises.\<close>

definition files_after :: "pyerr \<times> filesys + run \<Rightarrow> filesys" where
  "files_after res = (case res of Inl (e, fs) \<Rightarrow> fs | Inr r \<Rightarrow> run_files r)"

text \<open>Two states of the object with the same chain buffers.\<close>

definition same_chains :: "gibbs \<Rightarrow> gibbs \<Rightarrow> bool" where
  "same_chains g g' = (chain g' = chain g \<and> bchain g' = bchain g)"

section \<open>Facts about the example model\<close>

lemma str_nat_digits: "str_nat 0 = ''0''" "str_nat (Suc 0) = ''1''"
  by (simp_all add: str_nat.simps)

lemma init_demo: "PulsarBlockGibbs_init demo_pta hs ''mh'' None = Inr (demo_gibbs hs)"
  by (simp add: PulsarBlockGibbs_init_def demo_pta_def last_index_def rho_param_def
      efac_param_def rho_param1_def white_signal_def gw_signal_def init_ecorr_def
      last_signal_def basis_width_def demo_gibbs_def str_nat_digits enumerate_eq_zip upt_rec)

section \<open>Construction rejects a kernel ECORR signal\<close>

text \<open>
  C8. Constructing the sampler over a model one of whose signals is a kernel ECORR
  signal (its class name contains \<open>EcorrKernelNoise\<close>) raises an exception, whatever
  the other arguments are: \<open>TypeError\<close>, or \<open>IndexError\<close> for a model without any
  pulsar. No sampler object exists, so no sampling can begin.
\<close>

theorem init_rejects_kernel_ecorr:
  assumes "s \<in> set (signals p)" and "is_in ''EcorrKernelNoise'' (sig_class s)"
  shows "PulsarBlockGibbs_init p hs es ps
           = Inl (if pulsars p = [] then IndexError else TypeError)"
proof -
  from assms have "\<exists>sc \<in> set (map sig_class (signals p)). is_in ''EcorrKernelNoise'' sc"
    by auto
  then show ?thesis
    unfolding PulsarBlockGibbs_init_def by (cases "pulsars p") simp_all
qed

theorem init_rejects_kernel_ecorr_witness:
  "kernel_signal \<in> set (signals (demo_pta\<lparr>signals := [kernel_signal, gw_signal]\<rparr>))
   \<and> is_in ''EcorrKernelNoise'' (sig_class kernel_signal)
   \<and> PulsarBlockGibbs_init (demo_pta\<lparr>signals := [kernel_signal, gw_signal]\<rparr>)
        ''conditional'' ''mh'' None = Inl TypeError"
proof -
  have a: "kernel_signal \<in> set (signals (demo_pta\<lparr>signals := [kernel_signal, gw_signal]\<rparr>))"
    by simp
  have b: "is_in ''EcorrKernelNoise'' (sig_class kernel_signal)"
    by (simp add: kernel_signal_def)
  have c: "pulsars (demo_pta\<lparr>signals := [kernel_signal, gw_signal]\<rparr>) \<noteq> []"
    by (simp add: demo_pta_def)
  from init_rejects_kernel_ecorr [OF a b, of "''conditional''" "''mh''" None] a b c
  show ?thesis by simp
qed

section \<open>The range of the closed-form draw\<close>

text \<open>Rounding to binary64, once the binary exponent and the nearest integer are known.\<close>

lemma round_even_near:
  assumes "\<bar>y - of_int n\<bar> < 1/2"
  shows "round_even y = n"
proof -
  consider "of_int n \<le> y" | "y < of_int n" by linarith
  then show ?thesis
  proof cases
    case 1
    then have "\<lfloor>y\<rfloor> = n" using assms by (intro floor_unique) linarith+
    then show ?thesis using assms 1 by (simp add: round_even_def)
  next
    case 2
    then have "\<lfloor>y\<rfloor> = n - 1" using assms by (intro floor_unique) (simp, linarith)+
    then show ?thesis using assms 2 by (simp add: round_even_def)
  qed
qed

lemma floor_log2:
  assumes "0 < x" "2 powr of_int k \<le> x" "x < 2 powr of_int (k + 1)"
  shows "\<lfloor>log 2 x\<rfloor> = k"
proof (rule floor_unique)
  show "of_int k \<le> log 2 x" using assms by (simp add: le_log_iff)
  have "log 2 x < of_int (k + 1)" using assms by (simp add: log_less_iff)
  then show "log 2 x < of_int k + 1" by simp
qed

lemma fl_normal:
  assumes "2 powr of_int k \<le> \<bar>x\<bar>" "\<bar>x\<bar> < 2 powr of_int (k + 1)"
    and "- 1022 \<le> k"
    and "\<bar>x / 2 powr of_int (k - 52) - of_int n\<bar> < 1/2"
    and "\<bar>real_of_int n * 2 powr of_int (k - 52)\<bar> < 2 powr 1024"
  shows "fl x = Fin (real_of_int n * 2 powr of_int (k - 52))"
proof -
  have pos: "0 < \<bar>x\<bar>" using assms(1) powr_gt_zero [of 2 "of_int k"] by linarith
  have "\<lfloor>log 2 \<bar>x\<bar>\<rfloor> = k" using pos assms(1,2) by (rule floor_log2)
  moreover have "max (k - 52) (- 1074) = k - 52" using assms(3) by simp
  moreover have "round_even (x / 2 powr of_int (k - 52)) = n"
    using assms(4) by (rule round_even_near)
  ultimately show ?thesis using pos assms(5) by (simp add: fl_def Let_def)
qed

lemma fl_one: "fl 1 = Fin 1"
proof -
  have "fl 1 = Fin (real_of_int (2 ^ 52) * 2 powr of_int (0 - 52))"
    by (rule fl_normal) (simp_all add: powr_minus)
  then show ?thesis by (simp add: powr_minus)
qed

lemma flog_one: "flog (Fin 1) = Fin 0"
  by (simp add: fl_def)

text \<open>
  For \<open>tau = 0\<close> the code computes \<open>0/0\<close>: the draw is NaN, whatever the variate
  (\<open>high\<close> is then 0, so \<open>eta\<close> is 0).
\<close>

lemma rho_draw_double_zero_tau:
  assumes "rmax \<noteq> 0"
  shows "rho_draw_double (Fin 0) (Fin rmax) (Fin 0) = NaN"
  using assms by (simp add: rho_draw_double_def fl_one) (simp add: fl_def)

text \<open>The operations of the draw at the four numbers above, one by one.\<close>

lemma one_minus_eta_dbl: "fsub (Fin 1) (Fin eta_dbl) = Fin 1"
proof -
  have "fl (1 - eta_dbl) = Fin (real_of_int (2 ^ 53) * 2 powr of_int (- 1 - 52))"
    by (rule fl_normal) (simp_all add: eta_dbl_def powr_minus field_simps)
  then show ?thesis by (simp add: powr_minus)
qed

lemma tau_over_rhomax_dbl:
  "fdiv (Fin tau_dbl) (Fin rhomax_dbl) = Fin (4512944936570696 / 2 ^ 55)"
proof -
  have "fl (tau_dbl / rhomax_dbl)
          = Fin (real_of_int 4512944936570696 * 2 powr of_int (- 3 - 52))"
    by (rule fl_normal) (simp_all add: tau_dbl_def rhomax_dbl_def powr_minus field_simps)
  then show ?thesis by (simp add: powr_minus rhomax_dbl_def)
qed

lemma denominator_dbl:
  "fsub (Fin (4512944936570696 / 2 ^ 55)) (Fin 0) = Fin (4512944936570696 / 2 ^ 55)"
proof -
  have "fl (4512944936570696 / 2 ^ 55)
          = Fin (real_of_int 4512944936570696 * 2 powr of_int (- 3 - 52))"
    by (rule fl_normal) (simp_all add: powr_minus field_simps)
  then show ?thesis by (simp add: powr_minus)
qed

lemma quotient_dbl:
  "fdiv (Fin tau_dbl) (Fin (4512944936570696 / 2 ^ 55)) = Fin (7120816245988180 / 2 ^ 51)"
proof -
  have "fl (tau_dbl / (4512944936570696 / 2 ^ 55))
          = Fin (real_of_int 7120816245988180 * 2 powr of_int (1 - 52))"
    by (rule fl_normal) (simp_all add: tau_dbl_def powr_minus field_simps)
  then show ?thesis by (simp add: powr_minus)
qed

lemma eta_dbl_admissible: "eta_dbl < eta_high tau_dbl rhomin_dbl rhomax_dbl"
proof -
  have "tau_dbl / rhomax_dbl - tau_dbl / rhomin_dbl \<le> - 1"
    by (simp add: tau_dbl_def rhomax_dbl_def rhomin_dbl_def field_simps)
  then have "exp (tau_dbl / rhomax_dbl - tau_dbl / rhomin_dbl) \<le> exp (- 1 :: real)"
    by simp
  moreover have "1 + (1 :: real) \<le> exp 1" by (rule exp_ge_add_one_self)
  then have "exp (- 1 :: real) \<le> 1 / 2" by (simp add: exp_minus field_simps)
  moreover have "eta_dbl < 1 / 2" by (simp add: eta_dbl_def)
  ultimately show ?thesis unfolding eta_high_def by linarith
qed

text \<open>
  C5, as the claim states it, fails: the code evaluates the draw in binary64. With
  \<open>rhomin = 10**-2.0\<close>, \<open>rhomax = 10**0.5\<close> (the double 3.1622776601683795),
  \<open>tau = 0.396104953128904\<close> and \<open>eta = 1e-300\<close>, a variate of the open interval,
  \<open>1 - eta\<close> rounds to 1, its logarithm is 0, \<open>tau/rhomax\<close> rounds down and the
  quotient of \<open>tau\<close> by it rounds to 3.16227766016838, the double next above
  \<open>rhomax\<close>.
\<close>

theorem rho_draw_double_above_rhomax:
  "0 < tau_dbl \<and> 0 < rhomin_dbl \<and> rhomin_dbl < rhomax_dbl
   \<and> 0 < eta_dbl \<and> eta_dbl < eta_high tau_dbl rhomin_dbl rhomax_dbl
   \<and> rho_draw_double (Fin tau_dbl) (Fin rhomax_dbl) (Fin eta_dbl)
       = Fin (7120816245988180 / 2 ^ 51)
   \<and> rhomax_dbl < 7120816245988180 / 2 ^ 51"
proof -
  have "rho_draw_double (Fin tau_dbl) (Fin rhomax_dbl) (Fin eta_dbl)
          = Fin (7120816245988180 / 2 ^ 51)"
    by (simp only: rho_draw_double_def one_minus_eta_dbl flog_one tau_over_rhomax_dbl
        denominator_dbl quotient_dbl)
  moreover have "0 < tau_dbl" "0 < rhomin_dbl" "rhomin_dbl < rhomax_dbl" "0 < eta_dbl"
    "rhomax_dbl < 7120816245988180 / 2 ^ 51"
    by (simp_all add: tau_dbl_def rhomin_dbl_def rhomax_dbl_def eta_dbl_def)
  ultimately show ?thesis using eta_dbl_admissible by simp
qed

text \<open>
  C5, amended. In exact arithmetic, without intrinsic red noise, for a frequency with
  \<open>tau > 0\<close>, bounds \<open>0 < rhomin < rhomax\<close> and a uniform variate \<open>u\<close> of the open
  interval from 0 to \<open>1 - exp(tau/rhomax - tau/rhomin)\<close>, the closed form
  \<open>tau / (tau/rhomax - log(1 - u))\<close> lies between \<open>rhomin\<close> and \<open>rhomax\<close>. (The
  code evaluates this expression in binary64 and does not clamp it, so the stored
  draw can fall outside the interval by rounding, as above.)
\<close>

theorem rho_draw_exact_within_bounds:
  assumes tau: "0 < tau" and rmin: "0 < rmin" and lt: "rmin < rmax"
    and u0: "0 < u" and u1: "u < eta_high tau rmin rmax"
  shows "rmin \<le> rho_draw tau rmax u \<and> rho_draw tau rmax u \<le> rmax"
proof -
  define a where "a = tau / rmax"
  define b where "b = tau / rmin"
  have rmax: "0 < rmax" using rmin lt by simp
  have a0: "0 < a" unfolding a_def using tau rmax by simp
  have ab: "a < b" unfolding a_def b_def using tau rmin lt
    by (simp add: frac_less2)
  have "exp (a - b) < 1 - u" using u1 unfolding eta_high_def a_def b_def by simp
  moreover have pos: "0 < 1 - u"
    using \<open>exp (a - b) < 1 - u\<close> exp_gt_zero [of "a - b"] by linarith
  ultimately have "a - b < ln (1 - u)"
    using ln_less_cancel_iff [of "exp (a - b)" "1 - u"] by simp
  moreover have "ln (1 - u) < 0" using pos u0 by simp
  ultimately have den: "a < a - ln (1 - u)" "a - ln (1 - u) < b" by linarith+
  have dpos: "0 < a - ln (1 - u)" using a0 den(1) by linarith
  have lo: "rmin \<le> tau / (a - ln (1 - u))"
  proof -
    have "rmin * (a - ln (1 - u)) \<le> rmin * b" using den(2) rmin by simp
    also have "\<dots> = tau" unfolding b_def using rmin by simp
    finally show ?thesis using dpos by (simp add: pos_le_divide_eq)
  qed
  have hi: "tau / (a - ln (1 - u)) \<le> rmax"
  proof -
    have "tau = rmax * a" unfolding a_def using rmax by simp
    also have "\<dots> \<le> rmax * (a - ln (1 - u))" using den(1) rmax by simp
    finally show ?thesis using dpos by (simp add: pos_divide_le_eq)
  qed
  from lo hi show ?thesis unfolding rho_draw_def a_def by simp
qed

theorem rho_draw_exact_within_bounds_witness:
  "(1/4 :: real) < eta_high 1 1 2 \<and> 1 \<le> rho_draw 1 2 (1/4) \<and> rho_draw 1 2 (1/4) \<le> 2"
proof -
  have "1 + (1/2 :: real) \<le> exp (1/2)" by (rule exp_ge_add_one_self)
  then have "exp (- (1/2 :: real)) \<le> 2/3"
    by (simp add: exp_minus field_simps)
  then have h: "(1/4 :: real) < eta_high 1 1 2"
    unfolding eta_high_def by simp
  from rho_draw_exact_within_bounds [of 1 1 2 "1/4", OF _ _ _ _ h] h
  show ?thesis by simp
qed


section \<open>A sampling mode other than conditional\<close>

text \<open>
  C3, as the claim states it, fails: over the example model the constructor accepts
  the mode \<open>mh\<close> and returns an object, and the GW-rho update of that object returns
  a copy of the parameter vector unchanged.
\<close>

theorem nonconditional_mode_counterexample:
  "PulsarBlockGibbs_init demo_pta ''mh'' ''mh'' None = Inr (demo_gibbs ''mh'')
   \<and> update_gwrho_params (demo_gibbs ''mh'') no_rho_rand [[1, -1/2]] 0
       = Inr (1, [[1, -1/2], [1, -1/2]],
              (demo_gibbs ''mh'')\<lparr>stdout := [''Basis count is good'', rho_error_message]\<rparr>)"
proof -
  have "update_gwrho_params (demo_gibbs ''mh'') no_rho_rand [[1, -1/2]] 0
       = Inr (1, [[1, -1/2], [1, -1/2]],
              (demo_gibbs ''mh'')\<lparr>stdout := [''Basis count is good'', rho_error_message]\<rparr>)"
    by (simp add: update_gwrho_params_def demo_gibbs_def alloc_def)
  with init_demo [of "''mh''"] show ?thesis by simp
qed

text \<open>
  C3, amended. The constructor does not inspect \<open>hypersample\<close>: with a mode other
  than \<open>conditional\<close> it raises or returns exactly as it does with \<open>conditional\<close>, and
  the object it returns stores the mode. Every GW-rho update of an object with such
  a mode prints the message \<open>ERROR: Only conditional draws on rho for now...\<close> and
  returns a fresh copy of the parameter vector, unchanged.
\<close>

theorem nonconditional_mode_prints_and_copies:
  assumes "hs \<noteq> ''conditional''"
  shows "PulsarBlockGibbs_init p hs es ps
           = map_sum id (\<lambda>g. g\<lparr>hypersample := hs\<rparr>) (PulsarBlockGibbs_init p ''conditional'' es ps)
         \<and> (\<forall>g rnd h xs. hypersample g = hs \<longrightarrow>
              update_gwrho_params g rnd h xs
                = Inr (length h, h @ [h ! xs], g\<lparr>stdout := stdout g @ [rho_error_message]\<rparr>))"
  using assms
  by (auto simp add: PulsarBlockGibbs_init_def update_gwrho_params_def alloc_def
      split: list.splits option.splits sum.splits prod.splits)

theorem nonconditional_mode_prints_and_copies_witness:
  "''mh'' \<noteq> ''conditional''
   \<and> hypersample (demo_gibbs ''mh'') = ''mh''
   \<and> PulsarBlockGibbs_init demo_pta ''mh'' ''mh'' None
       = map_sum id (\<lambda>g. g\<lparr>hypersample := ''mh''\<rparr>)
           (PulsarBlockGibbs_init demo_pta ''conditional'' ''mh'' None)
   \<and> update_gwrho_params (demo_gibbs ''mh'') no_rho_rand [[1, -1/2]] 0
       = Inr (1, [[1, -1/2], [1, -1/2]],
              (demo_gibbs ''mh'')\<lparr>stdout := [''Basis count is good'', rho_error_message]\<rparr>)"
proof -
  have ne: "''mh'' \<noteq> ''conditional''" by simp
  have hs: "hypersample (demo_gibbs ''mh'') = ''mh''" by (simp add: demo_gibbs_def)
  have st: "stdout (demo_gibbs ''mh'') = [''Basis count is good'']" by (simp add: demo_gibbs_def)
  from nonconditional_mode_prints_and_copies [OF ne, of demo_pta "''mh''" None]
  have a: "PulsarBlockGibbs_init demo_pta ''mh'' ''mh'' None
       = map_sum id (\<lambda>g. g\<lparr>hypersample := ''mh''\<rparr>)
           (PulsarBlockGibbs_init demo_pta ''conditional'' ''mh'' None)"
    and b: "update_gwrho_params (demo_gibbs ''mh'') no_rho_rand [[1, -1/2]] 0
       = Inr (length [[1, -1/2 :: real]], [[1, -1/2]] @ [[[1, -1/2]] ! 0],
              (demo_gibbs ''mh'')\<lparr>stdout := stdout (demo_gibbs ''mh'') @ [rho_error_message]\<rparr>)"
    using hs by blast+
  from ne hs a b st show ?thesis by simp
qed

section \<open>The block updates write only into their own copies\<close>

lemma fold_update_pairs_length:
  "length (fold (\<lambda>(i, x) a. a[i := x]) ps v) = length v"
  by (induction ps arbitrary: v) (auto split: prod.splits)

lemma fold_update_pairs_nth:
  "i \<notin> fst ` set ps \<Longrightarrow> fold (\<lambda>(i, x) a. a[i := x]) ps v ! i = v ! i"
  by (induction ps arbitrary: v) (auto split: prod.splits)

lemma fold_update_const_length:
  "length (fold (\<lambda>i a. a[i := c]) idx v) = length v"
  by (induction idx arbitrary: v) auto

lemma fold_update_const_nth:
  "i \<notin> set idx \<Longrightarrow> fold (\<lambda>i a. a[i := c]) idx v ! i = v ! i"
  by (induction idx arbitrary: v) auto

lemma np_setitem_frame:
  assumes "np_setitem v idx vals = Inr v'"
  shows "length v' = length v" and "i \<notin> set idx \<Longrightarrow> v' ! i = v ! i"
proof -
  from assms consider
      (pairs) "v' = fold (\<lambda>(i, x) a. a[i := x]) (zip idx vals) v"
    | (const) "v' = fold (\<lambda>i a. a[i := hd vals]) idx v"
    by (auto simp: np_setitem_def split: if_splits)
  then show "length v' = length v"
    by cases (simp_all add: fold_update_pairs_length fold_update_const_length)
  assume i: "i \<notin> set idx"
  then have "i \<notin> fst ` set (zip idx vals)"
    by (auto dest: set_zip_leftD)
  with i assms show "v' ! i = v ! i"
    by (auto simp add: np_setitem_def fold_update_pairs_nth fold_update_const_nth
        split: if_splits)
qed

lemma gwrho_cases:
  assumes "update_gwrho_params g rr h xs = Inr (a, h', g')"
  shows "a = length h \<and>
         (h' = h @ [h ! xs]
          \<or> (\<exists>vals v. np_setitem (h ! xs) (get_gwrho_param_indices g) vals = Inr v
                     \<and> h' = h @ [v]))"
proof (cases "hypersample g = ''conditional''")
  case False
  with assms show ?thesis
    by (simp add: update_gwrho_params_def alloc_def)
next
  case True
  with assms show ?thesis
    by (simp add: update_gwrho_params_def alloc_def Let_def split: sum.splits option.splits)
      blast+
qed

lemma gwrho_frame:
  assumes "update_gwrho_params g rr h xs = Inr (a, h', g')" and "xs < length h"
  shows "frame_ok (get_gwrho_param_indices g) h xs h' a"
proof -
  from gwrho_cases [OF assms(1)] have a: "a = length h"
    and c: "h' = h @ [h ! xs]
          \<or> (\<exists>vals v. np_setitem (h ! xs) (get_gwrho_param_indices g) vals = Inr v
                     \<and> h' = h @ [v])" by auto
  from c show ?thesis
  proof
    assume "h' = h @ [h ! xs]"
    with a assms(2) show ?thesis by (simp add: frame_ok_def nth_append)
  next
    assume "\<exists>vals v. np_setitem (h ! xs) (get_gwrho_param_indices g) vals = Inr v \<and> h' = h @ [v]"
    then obtain vals v where v: "np_setitem (h ! xs) (get_gwrho_param_indices g) vals = Inr v"
      and h': "h' = h @ [v]" by blast
    from np_setitem_frame [OF v] a h' assms(2) show ?thesis
      by (simp add: frame_ok_def nth_append)
  qed
qed


lemma mh_step_cases:
  assumes "mh_step g wind dr (h, a, l0, p0) = Inr ((h', a', l1, p1), q)"
  shows "\<exists>par c. par \<in> set wind \<and> h' = h @ [(h ! a)[par := c]]
                 \<and> q = length h \<and> (a' = length h \<or> a' = a)"
proof -
  from assms have ne: "wind \<noteq> []"
    by (auto simp: mh_step_def alloc_def Let_def split: if_splits)
  then have mem: "wind ! (par_ix dr mod length wind) \<in> set wind" by simp
  from assms ne have
    "h' = h @ [(h ! a)[wind ! (par_ix dr mod length wind) :=
                 h ! a ! (wind ! (par_ix dr mod length wind))
                   + normal dr * (0.05 * real (length wind)) * (sizes ! (scale_ix dr mod 5))]]
     \<and> q = length h \<and> (a' = length h \<or> a' = a)"
    by (auto simp: mh_step_def alloc_def Let_def split: if_splits sum.splits)
  with mem show ?thesis by blast
qed

lemma mh_step_frame:
  assumes "mh_step g wind dr (h, a, l0, p0) = Inr ((h', a', l1, p1), q)"
    and "frame_ok wind h0 xs h a" and "xs < length h0"
  shows "frame_ok wind h0 xs h' a'"
proof -
  from mh_step_cases [OF assms(1)] obtain par c where par: "par \<in> set wind"
    and h': "h' = h @ [(h ! a)[par := c]]" and a': "a' = length h \<or> a' = a"
    by blast
  from assms(2) have f: "length h0 \<le> length h" "\<forall>k < length h0. h ! k = h0 ! k"
    "a < length h" "length (h ! a) = length (h0 ! xs)"
    "\<forall>i < length (h0 ! xs). i \<notin> set wind \<longrightarrow> h ! a ! i = h0 ! xs ! i"
    by (simp_all add: frame_ok_def)
  have keep: "\<forall>k < length h. h' ! k = h ! k" by (simp add: h' nth_append)
  have new: "h' ! length h = (h ! a)[par := c]" by (simp add: h')
  have len: "length h' = Suc (length h)" by (simp add: h')
  have pre: "\<forall>k < length h0. h' ! k = h0 ! k" using keep f(1,2) by simp
  have tgt: "length (h' ! a') = length (h0 ! xs)
             \<and> (\<forall>i < length (h0 ! xs). i \<notin> set wind \<longrightarrow> h' ! a' ! i = h0 ! xs ! i)"
    using a'
  proof
    assume "a' = length h"
    moreover have "\<And>i. i \<notin> set wind \<Longrightarrow> (h ! a)[par := c] ! i = h ! a ! i"
      using par by (metis nth_list_update_neq)
    ultimately show ?thesis using new f(4,5) by simp
  next
    assume "a' = a"
    then show ?thesis using keep f(3,4,5) by simp
  qed
  have "a' < length h'" using a' f(3) len by auto
  with pre tgt len f(1) assms(3) show ?thesis by (simp add: frame_ok_def)
qed

lemma mh_loop_frame:
  assumes "mh_loop g wind rnd ii n (h, a, l0, p0) = Inr (h', a', l1, p1)"
    and "frame_ok wind h0 xs h a" and "xs < length h0"
  shows "frame_ok wind h0 xs h' a'"
  using assms
proof (induction n arbitrary: ii h a l0 p0)
  case 0
  then show ?case by simp
next
  case (Suc n)
  from Suc.prems(1) obtain h1 a1 l p q
    where st: "mh_step g wind (rnd ii) (h, a, l0, p0) = Inr ((h1, a1, l, p), q)"
      and rest: "mh_loop g wind rnd (Suc ii) n (h1, a1, l, p) = Inr (h', a', l1, p1)"
    by (auto split: sum.splits)
  from mh_step_frame [OF st Suc.prems(2,3)] have "frame_ok wind h0 xs h1 a1" .
  from Suc.IH [OF rest this Suc.prems(3)] show ?case .
qed

lemma mh_tune_loop_frame:
  assumes "mh_tune_loop g wind rnd ii n ((h, a, l0, p0), sc) = Inr ((h', a', l1, p1), sc')"
    and "frame_ok wind h0 xs h a" and "xs < length h0"
  shows "frame_ok wind h0 xs h' a'"
  using assms
proof (induction n arbitrary: ii h a l0 p0 sc)
  case 0
  then show ?case by simp
next
  case (Suc n)
  from Suc.prems(1) obtain h1 a1 l p q row
    where st: "mh_step g wind (rnd ii) (h, a, l0, p0) = Inr ((h1, a1, l, p), q)"
      and rest: "mh_tune_loop g wind rnd (Suc ii) n ((h1, a1, l, p), sc[ii := row])
                   = Inr ((h', a', l1, p1), sc')"
    by (auto split: sum.splits)
  from mh_step_frame [OF st Suc.prems(2,3)] have "frame_ok wind h0 xs h1 a1" .
  from Suc.IH [OF rest this Suc.prems(3)] show ?case .
qed

lemma alloc_copy_frame: "xs < length h \<Longrightarrow> frame_ok idx h xs (h @ [h ! xs]) (length h)"
  by (simp add: frame_ok_def nth_append)

lemma white_frame:
  assumes "update_white_params lib g rnd h xs iters = Inr (a, h', g')" and "xs < length h"
  shows "frame_ok (get_efacequad_indices g) h xs h' a"
proof (cases iters)
  case None
  with assms(1) obtain l0 p0 n l1 p1 where
    "mh_loop g (get_efacequad_indices g) rnd 0 n (h @ [h ! xs], length h, l0, p0)
       = Inr (h', a, l1, p1)"
    by (auto simp: update_white_params_def alloc_def Let_def split: sum.splits option.splits)
  from mh_loop_frame [OF this alloc_copy_frame [OF assms(2)] assms(2)] show ?thesis .
next
  case (Some n)
  with assms(1) obtain l0 p0 sc l1 p1 sc' where
    "mh_tune_loop g (get_efacequad_indices g) rnd 0 n ((h @ [h ! xs], length h, l0, p0), sc)
       = Inr ((h', a, l1, p1), sc')"
    by (auto simp: update_white_params_def alloc_def Let_def split: sum.splits option.splits)
  from mh_tune_loop_frame [OF this alloc_copy_frame [OF assms(2)] assms(2)] show ?thesis .
qed

section \<open>The Metropolis steps of the example do not raise\<close>

lemma py_int_ge_one: "1 \<le> py_int t \<longleftrightarrow> 1 \<le> t"
  unfolding py_int_def by (auto simp: le_floor_iff)

lemma acor_ints_values:
  assumes "acor_ints lib rows js = Inr ts"
  shows "\<exists>taus. length taus = length js
           \<and> (\<forall>k < length js. acor lib (map (\<lambda>r. r ! (js ! k)) rows) = Inr (taus ! k))
           \<and> ts = map py_int taus"
  using assms
proof (induction js arbitrary: ts)
  case Nil
  then show ?case by simp
next
  case (Cons jj js)
  from Cons.prems obtain t ts' where t: "acor lib (map (\<lambda>r. r ! jj) rows) = Inr t"
    and r: "acor_ints lib rows js = Inr ts'" and ts: "ts = py_int t # ts'"
    by (auto split: sum.splits)
  from Cons.IH [OF r] obtain taus where taus: "length taus = length js"
    "\<forall>k < length js. acor lib (map (\<lambda>r. r ! (js ! k)) rows) = Inr (taus ! k)"
    "ts' = map py_int taus" by blast
  have "\<forall>k < length (jj # js). acor lib (map (\<lambda>r. r ! ((jj # js) ! k)) rows) = Inr ((t # taus) ! k)"
    using t taus(2) by (auto simp: nth_Cons split: nat.splits)
  with taus(1,3) ts show ?case
    by (intro exI [of _ "t # taus"]) simp
qed

lemma demo2_lnlike:
  assumes "pta g = demo2_pta" "self_b g = [0, 0]" "residuals g = [1, 2]" "length v = 3"
  shows "get_lnlikelihood_white g v = Inr (Fin (- 5 / 2))"
proof -
  from assms(4) obtain x y z where "v = [x, y, z]"
    by (auto simp: length_Suc_conv numeral_3_eq_3)
  with assms(1-3) show ?thesis
    by (simp add: get_lnlikelihood_white_def map_params_def params_of_def
      demo2_pta_def demo_pta_def efac_param_def equad_param_def rho_param1_def
      mat_vec_def np_zip_def dot_def Let_def)
qed

lemma demo2_lnprior:
  assumes "pta g = demo2_pta" "length v = 3"
  shows "get_lnprior g v = Inr (Fin 0)"
proof -
  from assms(2) obtain x y z where "v = [x, y, z]"
    by (auto simp: length_Suc_conv numeral_3_eq_3)
  with assms(1) show ?thesis
    by (simp add: get_lnprior_def map_params_def params_of_def
      demo2_pta_def demo_pta_def efac_param_def equad_param_def rho_param1_def)
qed

lemma mh_step_succeeds:
  assumes ne: "wind \<noteq> []" and rng: "\<forall>i \<in> set wind. i < length (h ! a)"
    and ll: "\<And>v. length v = length (h ! a) \<Longrightarrow> \<exists>l. get_lnlikelihood_white g v = Inr l"
    and lp: "\<And>v. length v = length (h ! a) \<Longrightarrow> \<exists>p. get_lnprior g v = Inr p"
    and a: "a < length h"
  shows "\<exists>h' a' l1 p1. mh_step g wind dr (h, a, l0, p0) = Inr ((h', a', l1, p1), length h)
           \<and> a' < length h' \<and> length (h' ! a') = length (h ! a)
           \<and> length h < length h' \<and> length (h' ! length h) = length (h ! a)"
proof -
  define par where "par = wind ! (par_ix dr mod length wind)"
  define L where "L = (\<lambda>v. projr (get_lnlikelihood_white g v))"
  define P where "P = (\<lambda>v. projr (get_lnprior g v))"
  have "par \<in> set wind" unfolding par_def using ne by simp
  with rng have par: "\<not> length (h ! a) \<le> par" by auto
  have l: "\<And>v. length v = length (h ! a) \<Longrightarrow> get_lnlikelihood_white g v = Inr (L v)"
    using ll unfolding L_def by fastforce
  have p: "\<And>v. length v = length (h ! a) \<Longrightarrow> get_lnprior g v = Inr (P v)"
    using lp unfolding P_def by fastforce
  show ?thesis using ne par a
    by (auto simp add: mh_step_def alloc_def Let_def l p nth_append par_def [symmetric])
qed

lemma mh_tune_loop_succeeds:
  assumes ne: "wind \<noteq> []" and rng: "\<forall>i \<in> set wind. i < m"
    and ll: "\<And>v. length v = m \<Longrightarrow> \<exists>l. get_lnlikelihood_white g v = Inr l"
    and lp: "\<And>v. length v = m \<Longrightarrow> \<exists>p. get_lnprior g v = Inr p"
    and a: "a < length h" "length (h ! a) = m"
  shows "\<exists>s1 sc'. mh_tune_loop g wind rnd ii n ((h, a, l0, p0), sc) = Inr (s1, sc')"
  using a
proof (induction n arbitrary: ii h a l0 p0 sc)
  case 0
  then show ?case by simp
next
  case (Suc n)
  have "\<exists>h' a' l1 p1. mh_step g wind (rnd ii) (h, a, l0, p0) = Inr ((h', a', l1, p1), length h)
           \<and> a' < length h' \<and> length (h' ! a') = length (h ! a)
           \<and> length h < length h' \<and> length (h' ! length h) = length (h ! a)"
    using ne rng ll lp Suc.prems by (intro mh_step_succeeds) simp_all
  then obtain h' a' l1 p1 where
    st: "mh_step g wind (rnd ii) (h, a, l0, p0) = Inr ((h', a', l1, p1), length h)"
    and inv: "a' < length h'" "length (h' ! a') = m" and q: "length (h' ! length h) = m"
    using Suc.prems(2) by auto
  from rng q have gi: "np_getitem (h' ! length h) wind = Inr (map (\<lambda>i. h' ! length h ! i) wind)"
    by (auto simp: np_getitem_def)
  from Suc.IH [OF inv] st gi show ?case by simp
qed

lemma demo2_tune_loop:
  assumes g: "pta g = demo2_pta" "self_b g = [0, 0]" "residuals g = [1, 2]"
    and a: "a < length h" "length (h ! a) = 3"
  shows "\<exists>s1 sc'. mh_tune_loop g [0, 1] rnd ii n ((h, a, l0, p0), sc) = Inr (s1, sc')"
  using a demo2_lnlike [OF g] demo2_lnprior [OF g(1)]
  by (intro mh_tune_loop_succeeds [where m = 3]) auto

lemma demo2_wind:
  assumes "pta g = demo2_pta"
  shows "get_efacequad_indices g = [0, 1]"
  using assms
  by (simp add: get_efacequad_indices_def param_names_def params_of_def
      demo2_pta_def demo_pta_def names_of_param_def efac_param_def
      equad_param_def rho_param1_def indices_where_def enumerate_eq_zip upt_rec str_nat_digits)

lemma demo_tune_aclength: "tune_aclength demo_lib sc (Suc (Suc 0)) = Inr 0"
  by (simp add: tune_aclength_def demo_lib_def py_int_def upt_rec Let_def)

lemma demo2_tuning_run:
  assumes g: "pta g = demo2_pta" "self_b g = [0, 0]" "residuals g = [1, 2]"
    and "xs < length h" "length (h ! xs) = 3"
  shows "\<exists>a h'. update_white_params demo_lib g rnd h xs (Some n)
                  = Inr (a, h', g\<lparr>aclength_white := Some 0\<rparr>)"
proof -
  have l3: "length ((h @ [h ! xs]) ! length h) = 3" using assms(5) by simp
  have lt: "length h < length (h @ [h ! xs])" by simp
  from demo2_tune_loop [OF g lt l3, where ?l0.0 = "Fin (- 5 / 2)" and ?p0.0 = "Fin 0"
      and rnd = rnd and ii = 0 and n = n and sc = "replicate n [0, 0]"]
  obtain s1 sc' where
    "mh_tune_loop g [0, 1] rnd 0 n ((h @ [h ! xs], length h, Fin (- 5 / 2), Fin 0), replicate n [0, 0])
       = Inr (s1, sc')" by blast
  then show ?thesis
    using demo2_lnlike [OF g l3] demo2_lnprior [OF g(1) l3]
    by (cases s1) (simp add: update_white_params_def alloc_def demo2_wind [OF g(1)]
        demo_tune_aclength Let_def)
qed

lemma demo2_gibbs_fields:
  "pta (demo2_gibbs hs) = demo2_pta" "self_b (demo2_gibbs hs) = [0, 0]"
  "residuals (demo2_gibbs hs) = [1, 2]"
  by (simp_all add: demo2_gibbs_def demo_gibbs_def)

lemma white_run:
  "update_white_params demo_lib (demo2_gibbs ''conditional''\<lparr>aclength_white := Some 1\<rparr>)
      demo_draws [[1, -6, -1/2]] 0 None
   = Inr (2, [[1, -6, -1/2], [1, -6, -1/2], [11/10, -6, -1/2]],
          demo2_gibbs ''conditional''\<lparr>aclength_white := Some 1\<rparr>)"
proof -
  let ?g = "demo2_gibbs ''conditional''\<lparr>aclength_white := Some 1\<rparr>"
  have g: "pta ?g = demo2_pta" "self_b ?g = [0, 0]" "residuals ?g = [1, 2]"
    by (simp_all add: demo2_gibbs_fields)
  have ll: "\<And>x y z. get_lnlikelihood_white ?g [x, y, z] = Inr (Fin (- 5 / 2))"
    by (rule demo2_lnlike [OF g]) simp
  have lp: "\<And>x y z. get_lnprior ?g [x, y, z] = Inr (Fin 0)"
    by (rule demo2_lnprior [OF g(1)]) simp
  show ?thesis
    by (simp add: update_white_params_def demo2_wind [OF g(1)] ll lp alloc_def
        mh_step_def demo_draws_def sizes_def metropolis_accept_def np_log_def ln_sub_def Let_def)
qed

lemma demo_gwind: "get_gwrho_param_indices (demo_gibbs hs\<lparr>self_b := bb\<rparr>) = [1]"
  by (simp add: get_gwrho_param_indices_def param_names_def params_of_def
      demo_gibbs_def demo_pta_def names_of_param_def efac_param_def
      rho_param1_def indices_where_def enumerate_eq_zip upt_rec str_nat_digits)

lemma gwrho_run:
  "update_gwrho_params (demo_gibbs ''conditional''\<lparr>self_b := [1/2, 1]\<rparr>) no_rho_rand
      [[1, -1/2]] 0
   = Inr (1, [[1, -1/2], [1, 0]], demo_gibbs ''conditional''\<lparr>self_b := [1/2, 1]\<rparr>)"
  apply (simp add: update_gwrho_params_def demo_gwind alloc_def Let_def)
  apply (simp add: demo_gibbs_def get_tau_def np_getitem_def np_zip_def draw_rho_analytic_def
      no_rho_rand_def rho_draw_def eta_high_def np_setitem_def enumerate_eq_zip power2_eq_square)
  done

section \<open>What the block updates leave unchanged\<close>

text \<open>
  C9. \<open>update_white_params\<close> and \<open>update_gwrho_params\<close>, given a valid reference to
  a parameter vector, leave that vector and every other array that existed as they
  were; the vector they return has the same length and equals the argument at every
  position outside the index set of the block (the efac and equad indices for the
  white block, the rho indices for the GW-rho block).
\<close>

theorem block_updates_frame:
  assumes "xs < length h"
  shows "(update_white_params lib g rnd h xs iters = Inr (a, h', g')
            \<longrightarrow> frame_ok (get_efacequad_indices g) h xs h' a)
         \<and> (update_gwrho_params g rr h xs = Inr (a2, h2, g2)
            \<longrightarrow> frame_ok (get_gwrho_param_indices g) h xs h2 a2)"
  using white_frame gwrho_frame assms by blast

theorem block_updates_frame_witness:
  "update_white_params demo_lib (demo2_gibbs ''conditional''\<lparr>aclength_white := Some 1\<rparr>)
      demo_draws [[1, -6, -1/2]] 0 None
     = Inr (2, [[1, -6, -1/2], [1, -6, -1/2], [11/10, -6, -1/2]],
            demo2_gibbs ''conditional''\<lparr>aclength_white := Some 1\<rparr>)
   \<and> frame_ok [0, 1] [[1, -6, -1/2]] 0 [[1, -6, -1/2], [1, -6, -1/2], [11/10, -6, -1/2]] 2
   \<and> update_gwrho_params (demo_gibbs ''conditional''\<lparr>self_b := [1/2, 1]\<rparr>) no_rho_rand
        [[1, -1/2]] 0
     = Inr (1, [[1, -1/2], [1, 0]], demo_gibbs ''conditional''\<lparr>self_b := [1/2, 1]\<rparr>)
   \<and> frame_ok [1] [[1, -1/2]] 0 [[1, -1/2], [1, 0]] 1"
proof -
  let ?g = "demo2_gibbs ''conditional''\<lparr>aclength_white := Some 1\<rparr>"
  have w: "get_efacequad_indices ?g = [0, 1]"
    by (rule demo2_wind) (simp add: demo2_gibbs_fields)
  have len1: "(0::nat) < length [[1, -6, -1/2 :: real]]" by simp
  have len2: "(0::nat) < length [[1, -1/2 :: real]]" by simp
  from block_updates_frame [OF len1, of demo_lib ?g demo_draws None] white_run w
  have a: "frame_ok [0, 1] [[1, -6, -1/2]] 0 [[1, -6, -1/2], [1, -6, -1/2], [11/10, -6, -1/2]] 2"
    by simp
  from block_updates_frame [OF len2, of _ "demo_gibbs ''conditional''\<lparr>self_b := [1/2, 1]\<rparr>"
      _ _ _ _ _ no_rho_rand] gwrho_run demo_gwind
  have b: "frame_ok [1] [[1, -1/2]] 0 [[1, -1/2], [1, 0]] 1"
    by simp
  from a b white_run gwrho_run show ?thesis by simp
qed

section \<open>The thinning length of the white-noise block\<close>

text \<open>
  C4, as the claim states it, fails: with an estimator that returns one half for
  every parameter, the tuning run of 1000 steps that \<open>sample\<close> makes stores the
  thinning length 0.
\<close>

theorem thinning_length_counterexample:
  "map_sum id (\<lambda>r. aclength_white (snd (snd r)))
     (update_white_params demo_lib (demo2_gibbs ''conditional'') demo_draws [[1, -6, -1/2]] 0
        (Some 1000))
   = Inr (Some 0)"
proof -
  from demo2_tuning_run [OF demo2_gibbs_fields, of 0 "[[1, -6, -1/2]]" "''conditional''" demo_draws 1000]
  obtain a h' where
    "update_white_params demo_lib (demo2_gibbs ''conditional'') demo_draws [[1, -6, -1/2]] 0
       (Some 1000) = Inr (a, h', demo2_gibbs ''conditional''\<lparr>aclength_white := Some 0\<rparr>)"
    by auto
  then show ?thesis by simp
qed

text \<open>
  C4, amended. After a tuning run that returns, \<open>aclength_white\<close> is the largest of
  the autocorrelation times that the estimator returns for the retained chain of each
  parameter of the block, each truncated towards zero; it is at least 1 exactly when
  the estimator returns a value of at least 1 for one of the parameters.
\<close>

theorem tuning_thinning_length:
  assumes "update_white_params lib g rnd h xs (Some n) = Inr (a, h', g')"
  shows "\<exists>s0 s1 sc taus.
           mh_tune_loop g (get_efacequad_indices g) rnd 0 n
             (s0, replicate n (replicate (length (get_efacequad_indices g)) 0)) = Inr (s1, sc)
           \<and> length taus = length (get_efacequad_indices g)
           \<and> (\<forall>j < length (get_efacequad_indices g).
                 acor lib (map (\<lambda>r. r ! j) (drop 100 sc)) = Inr (taus ! j))
           \<and> aclength_white g' = Some (Max (set (map py_int taus)))
           \<and> (1 \<le> Max (set (map py_int taus)) \<longleftrightarrow> (\<exists>t \<in> set taus. 1 \<le> t))"
proof -
  let ?wind = "get_efacequad_indices g"
  from assms obtain s0 s1 sc ac where
    loop: "mh_tune_loop g ?wind rnd 0 n (s0, replicate n (replicate (length ?wind) 0)) = Inr (s1, sc)"
    and ac: "tune_aclength lib sc (length ?wind) = Inr ac"
    and g': "aclength_white g' = Some ac"
    by (auto simp: update_white_params_def alloc_def Let_def split: sum.splits prod.splits)
  from ac obtain ts where k: "2 \<le> length ?wind"
    and ts: "acor_ints lib (drop 100 sc) [0..<length ?wind] = Inr ts" and m: "ac = Max (set ts)"
    by (auto simp: tune_aclength_def Let_def split: if_splits sum.splits)
  from acor_ints_values [OF ts] obtain taus where taus: "length taus = length ?wind"
    "\<forall>j < length ?wind. acor lib (map (\<lambda>r. r ! j) (drop 100 sc)) = Inr (taus ! j)"
    "ts = map py_int taus" by auto
  have ne: "set (map py_int taus) \<noteq> {}" using taus(1) k by auto
  have "1 \<le> Max (set (map py_int taus)) \<longleftrightarrow> (\<exists>t \<in> set taus. 1 \<le> t)"
    using ne by (simp add: Max_ge_iff py_int_ge_one)
  with loop taus g' m show ?thesis by blast
qed

theorem tuning_thinning_length_witness:
  "\<exists>a h' g' taus.
     update_white_params demo_lib (demo2_gibbs ''conditional'') demo_draws [[1, -6, -1/2]] 0
       (Some 1000) = Inr (a, h', g')
     \<and> length taus = 2
     \<and> aclength_white g' = Some (Max (set (map py_int taus)))
     \<and> (1 \<le> Max (set (map py_int taus)) \<longleftrightarrow> (\<exists>t \<in> set taus. 1 \<le> t))"
proof -
  from demo2_tuning_run [OF demo2_gibbs_fields, of 0 "[[1, -6, -1/2]]" "''conditional''"
      demo_draws 1000]
  obtain a h' g' where run:
    "update_white_params demo_lib (demo2_gibbs ''conditional'') demo_draws [[1, -6, -1/2]] 0
       (Some 1000) = Inr (a, h', g')"
    by auto
  have w: "get_efacequad_indices (demo2_gibbs ''conditional'') = [0, 1]"
    by (rule demo2_wind) (simp add: demo2_gibbs_fields)
  from tuning_thinning_length [OF run] obtain taus where
    l: "length taus = length (get_efacequad_indices (demo2_gibbs ''conditional''))"
    and m: "aclength_white g' = Some (Max (set (map py_int taus)))"
    and i: "1 \<le> Max (set (map py_int taus)) \<longleftrightarrow> (\<exists>t \<in> set taus. 1 \<le> t)"
    by blast
  from l w have "length taus = 2" by simp
  with m i have "length taus = 2 \<and> aclength_white g' = Some (Max (set (map py_int taus)))
     \<and> (1 \<le> Max (set (map py_int taus)) \<longleftrightarrow> (\<exists>t \<in> set taus. 1 \<le> t))"
    by blast
  with run show ?thesis by blast
qed

section \<open>The full-marginal likelihood of an indefinite matrix\<close>

lemma metropolis_rejects_neginf: "\<not> metropolis_accept NegInf p1 l0 p0 u"
  unfolding metropolis_accept_def ln_sub_def np_log_def
  by (cases p1; cases "ln_add l0 p0"; simp)

lemma setup_degenerate:
  "fullmarg_setup ((demo_gibbs ''conditional'')\<lparr>pta := degenerate_pta\<rparr>) [1, -1/2]
   = Inr ([1, 1], [1, 4], 0, [[2, 0], [0, 0]], [1, 0],
          (demo_gibbs ''conditional'')\<lparr>pta := degenerate_pta, TNT := Some [[1, 0], [0, 0]],
             self_d := Some [1, 0]\<rparr>)"
  by (simp add: fullmarg_setup_def map_params_def params_of_def demo_gibbs_def degenerate_pta_def
      demo_pta_def efac_param_def rho_param1_def fill_cache_def div_rows_def mat_mul_def
      mat_vec_def np_zip_def get_Sigma_def add_diag_def dot_def transpose.simps enumerate_eq_zip
      upt_rec Let_def)

text \<open>
  C7. When \<open>get_lnlikelihood_fullmarg\<close> reaches its Cholesky factorization and the
  factorization of \<open>Sigma\<close> fails with \<open>LinAlgError\<close>, the function returns minus
  infinity and raises nothing. A proposal with that log-likelihood fails the
  Metropolis test of this code whatever the prior, the current point and the uniform
  variate are.
\<close>

theorem fullmarg_neginf_when_not_posdef:
  assumes "fullmarg_setup g xs = Inr (Nvec, terms, logdet_phi, Sgm, dv, g')"
    and "cho_factor lib Sgm = Inl LinAlgError"
  shows "get_lnlikelihood_fullmarg lib g xs = Inr (NegInf, g')
         \<and> \<not> metropolis_accept NegInf lnprior1 lnlike0 lnprior0 u"
proof -
  have "try_cholesky lib Sgm dv = Inl LinAlgError"
    using assms(2) by (simp add: try_cholesky_def)
  then have "get_lnlikelihood_fullmarg lib g xs = Inr (NegInf, g')"
    using assms(1) by (simp add: get_lnlikelihood_fullmarg_def)
  then show ?thesis using metropolis_rejects_neginf by simp
qed

theorem fullmarg_neginf_when_not_posdef_witness:
  "cho_factor demo_lib [[2, 0], [0, 0]] = Inl LinAlgError
   \<and> get_lnlikelihood_fullmarg demo_lib ((demo_gibbs ''conditional'')\<lparr>pta := degenerate_pta\<rparr>)
        [1, -1/2]
     = Inr (NegInf,
            (demo_gibbs ''conditional'')\<lparr>pta := degenerate_pta, TNT := Some [[1, 0], [0, 0]],
               self_d := Some [1, 0]\<rparr>)
   \<and> \<not> metropolis_accept NegInf (Fin 0) (Fin (- 5 / 2)) (Fin 0) (1 / 2)"
proof -
  have c: "cho_factor demo_lib [[2, 0], [0, 0]] = Inl LinAlgError"
    by (simp add: demo_lib_def diag_cho_factor_def enumerate_eq_zip upt_rec)
  from fullmarg_neginf_when_not_posdef [OF setup_degenerate c, of "Fin 0" "Fin (- 5 / 2)" "Fin 0" "1 / 2"] c
  show ?thesis by simp
qed

section \<open>The example run of the Gibbs loop\<close>

lemma rho_gwind: "pta g = rho_pta \<Longrightarrow> get_gwrho_param_indices g = [0]"
  by (simp add: get_gwrho_param_indices_def param_names_def params_of_def rho_pta_def
      demo_pta_def names_of_param_def rho_param1_def indices_where_def enumerate_eq_zip
      upt_rec str_nat_digits)

lemma rho_noind: "pta g = rho_pta \<Longrightarrow> get_efacequad_indices g = [] \<and> get_red_param_indices g = []
   \<and> get_ecorr_indices g = []"
  by (simp add: get_efacequad_indices_def get_red_param_indices_def get_ecorr_indices_def
      param_names_def params_of_def rho_pta_def
      demo_pta_def names_of_param_def rho_param1_def indices_where_def enumerate_eq_zip
      upt_rec str_nat_digits)

lemma rho_update_b:
  assumes "pta g = rho_pta" "residuals g = [1, 2]" "TNT g = None" "self_d g = None"
  shows "update_b demo_lib g (\<lambda>_. 0) [x]
         = Inr ([1/2, 1], g\<lparr>TNT := Some [[1, 0], [0, 1]], self_d := Some [1, 2]\<rparr>)"
  using assms
  by (simp add: update_b_def map_params_def params_of_def rho_pta_def demo_pta_def rho_param1_def
      fill_cache_def div_rows_def mat_mul_def mat_vec_def np_zip_def get_Sigma_def add_diag_def
      dot_def transpose.simps enumerate_eq_zip upt_rec Let_def mean_and_factor_svd_def demo_lib_def
      scale_cols_def)



lemma rho_fields: "pta (rho_gibbs hs) = rho_pta" "residuals (rho_gibbs hs) = [1, 2]"
  "TNT (rho_gibbs hs) = None" "self_d (rho_gibbs hs) = None" "hypersample (rho_gibbs hs) = hs"
  "self_b (rho_gibbs hs) = [0, 0]" "gwid (rho_gibbs hs) = Some [0, 1]" "red_sig (rho_gibbs hs) = None"
  "rhomax (rho_gibbs hs) = 1"
  by (simp_all add: rho_gibbs_def demo_gibbs_def)

lemma rho_gwrho:
  assumes "pta g = rho_pta" "hypersample g = ''conditional''"
    "gwid g = Some [0, 1]" "red_sig g = None" "rhomax g = 1" "self_b g = [1/2, 1]"
    "a < length h" "length (h ! a) = 1"
  shows "update_gwrho_params g no_rho_rand h a = Inr (length h, h @ [[0]], g)"
proof -
  have tau: "get_tau g = Inr [5/8]"
    using assms by (simp add: get_tau_def np_getitem_def np_zip_def power2_eq_square)
  have dr: "draw_rho_analytic g no_rho_rand [5/8] = [1]"
    using assms by (simp add: draw_rho_analytic_def no_rho_rand_def rho_draw_def enumerate_eq_zip)
  from assms(8) obtain x where x: "h ! a = [x]"
    by (auto simp: length_Suc_conv)
  have st: "np_setitem [x] [0] [0] = Inr [0]"
    by (simp add: np_setitem_def)
  show ?thesis
    using assms(1-4) tau dr x st
    by (simp add: update_gwrho_params_def rho_gwind alloc_def Let_def)
qed

section \<open>The chain buffers\<close>

lemma same_chains_refl [simp]: "same_chains g g"
  by (simp add: same_chains_def)

lemma same_chains_trans: "same_chains g g1 \<Longrightarrow> same_chains g1 g2 \<Longrightarrow> same_chains g g2"
  by (simp add: same_chains_def)

lemma fill_cache_chains: "fill_cache g T Nvec = Inr g' \<Longrightarrow> same_chains g g'"
  by (auto simp: fill_cache_def same_chains_def split: if_splits sum.splits)

lemma update_b_chains:
  assumes "update_b lib g z x = Inr (bnew, g')"
  shows "same_chains g g'"
proof -
  from assms obtain T Nvec where "fill_cache g T Nvec = Inr g'"
    by (auto simp: update_b_def Let_def split: sum.splits)
  then show ?thesis by (rule fill_cache_chains)
qed

lemma fullmarg_setup_chains:
  assumes "fullmarg_setup g x = Inr (Nvec, terms, ld, Sgm, dv, g')"
  shows "same_chains g g'"
proof -
  from assms obtain T N where "fill_cache g T N = Inr g'"
    by (auto simp: fullmarg_setup_def Let_def split: sum.splits prod.splits)
  then show ?thesis by (rule fill_cache_chains)
qed

lemma fullmarg_chains:
  assumes "get_lnlikelihood_fullmarg lib g x = Inr (v, g')"
  shows "same_chains g g'"
proof -
  from assms obtain Nvec terms ld Sgm dv where
    "fullmarg_setup g x = Inr (Nvec, terms, ld, Sgm, dv, g')"
    by (auto simp: get_lnlikelihood_fullmarg_def Let_def
        split: sum.splits prod.splits pyerr.splits if_splits)
  then show ?thesis by (rule fullmarg_setup_chains)
qed

lemma tune_red_chains:
  assumes "tune_red lib ptl g seed x n = Inr (x', g')"
  shows "same_chains g g'"
proof -
  from assms obtain v g1 where f: "get_lnlikelihood_fullmarg lib g x = Inr (v, g1)"
    and "chain g' = chain g1" "bchain g' = bchain g1"
    by (auto simp: tune_red_def Let_def split: sum.splits prod.splits)
  with fullmarg_chains [OF f] show ?thesis by (simp add: same_chains_def)
qed

lemma update_red_chains:
  assumes "update_red_params lib ptl g seed h xs iters = Inr (a, h', g')"
  shows "same_chains g g'"
proof (cases iters)
  case None
  with assms have "g' = g"
    by (auto simp: update_red_params_def alloc_def Let_def split: sum.splits option.splits)
  then show ?thesis by simp
next
  case (Some n)
  with assms obtain x x' where "tune_red lib ptl g seed x n = Inr (x', g')"
    by (auto simp: update_red_params_def alloc_def Let_def split: sum.splits)
  then show ?thesis by (rule tune_red_chains)
qed

lemma update_white_chains:
  "update_white_params lib g rnd h xs iters = Inr (a, h', g') \<Longrightarrow> same_chains g g'"
  by (auto simp: update_white_params_def alloc_def Let_def same_chains_def
      split: sum.splits prod.splits option.splits)

lemma update_gwrho_chains:
  "update_gwrho_params g rr h xs = Inr (a, h', g') \<Longrightarrow> same_chains g g'"
  by (auto simp: update_gwrho_params_def alloc_def Let_def same_chains_def
      split: sum.splits prod.splits option.splits if_splits)

lemma run_blocks_chains:
  assumes "run_blocks lib ptl rnd ii (a, h, g) = Inr (a', h', g')"
  shows "same_chains g g'"
proof -
  from assms obtain a1 h1 g1 a2 h2 g2 a3 h3 g3 where
    w: "white_block lib rnd ii (a, h, g) = Inr (a1, h1, g1)"
    and e: "ecorr_block (a1, h1, g1) = Inr (a2, h2, g2)"
    and r: "red_block lib ptl rnd ii (a2, h2, g2) = Inr (a3, h3, g3)"
    and q: "gwrho_block rnd ii (a3, h3, g3) = Inr (a', h', g')"
    by (auto simp: run_blocks_def split: sum.splits)
  from w have 1: "same_chains g g1"
    by (auto simp: white_block_def split: if_splits dest: update_white_chains)
  from e have 2: "same_chains g1 g2"
    by (auto simp: ecorr_block_def same_chains_def split: if_splits)
  from r have 3: "same_chains g2 g3"
    by (auto simp: red_block_def split: if_splits dest: update_red_chains)
  from q have 4: "same_chains g3 g'"
    by (auto simp: gwrho_block_def split: if_splits dest: update_gwrho_chains)
  from 1 2 3 4 show ?thesis by (simp add: same_chains_def)
qed

lemma first_draw_chains: "first_draw lib g z ii x = Inr g' \<Longrightarrow> same_chains g g'"
  by (auto simp: first_draw_def same_chains_def split: if_splits sum.splits
      dest!: update_b_chains)

lemma redraw_b_chains: "redraw_b lib g z ii x = Inr g' \<Longrightarrow> same_chains g g'"
  by (auto simp: redraw_b_def same_chains_def split: if_splits sum.splits
      dest!: update_b_chains)

text \<open>What one iteration does to the buffers and to the directory.\<close>

lemma sample_iter_effect:
  assumes "sample_iter lib ptl rnd xs outdir ii r = Inr r'"
  shows "\<exists>c bc. assign_row (chain (run_self r)) ii (run_heap r ! run_xnew r) = Inr c
           \<and> assign_row (bchain (run_self r)) ii (self_b (run_self r)) = Inr bc
           \<and> chain (run_self r') = c \<and> bchain (run_self r') = bc
           \<and> run_files r' = checkpoint (run_self r') outdir ii (run_files r)"
proof -
  from assms obtain g1 g2 a h g3 g4 where
    1: "record_state (run_self r) ii (run_heap r ! run_xnew r) = Inr g1"
    and 2: "first_draw lib g1 (z_first rnd) ii (run_heap r ! xs) = Inr g2"
    and 3: "run_blocks lib ptl rnd ii (run_xnew r, run_heap r, g2) = Inr (a, h, g3)"
    and 4: "redraw_b lib g3 (z_redraw rnd ii) ii (h ! a) = Inr g4"
    and 5: "r' = \<lparr> run_self = g4, run_heap = h, run_xnew = a,
                   run_files = checkpoint g4 outdir ii (run_files r) \<rparr>"
    by (auto simp: sample_iter_def split: sum.splits)
  from 1 obtain c bc where c: "assign_row (chain (run_self r)) ii (run_heap r ! run_xnew r) = Inr c"
    and bc: "assign_row (bchain (run_self r)) ii (self_b (run_self r)) = Inr bc"
    and g1: "chain g1 = c" "bchain g1 = bc"
    by (auto simp: record_state_def split: sum.splits)
  from first_draw_chains [OF 2] run_blocks_chains [OF 3] redraw_b_chains [OF 4] g1
  have "chain g4 = c" "bchain g4 = bc" by (simp_all add: same_chains_def)
  with c bc 5 show ?thesis by simp
qed


lemma assign_row_facts:
  assumes "assign_row M ii v = Inr c"
  shows "ii < length M" "length c = length M" "j \<noteq> ii \<Longrightarrow> c ! j = M ! j"
    "length v = length (M ! ii) \<Longrightarrow> c ! ii = v"
    "length (c ! ii) = length (M ! ii)"
  using assms by (auto simp: assign_row_def split: if_splits)

lemma sample_iter_rows:
  assumes "sample_iter lib ptl rnd xs outdir ii r = Inr r'"
  shows "ii < length (chain (run_self r))"
    and "j \<noteq> ii \<Longrightarrow> chain (run_self r') ! j = chain (run_self r) ! j"
    and "j \<noteq> ii \<Longrightarrow> bchain (run_self r') ! j = bchain (run_self r) ! j"
    and "length (run_heap r ! run_xnew r) = length (chain (run_self r) ! ii)
           \<Longrightarrow> chain (run_self r') ! ii = run_heap r ! run_xnew r"
    and "length (self_b (run_self r)) = length (bchain (run_self r) ! ii)
           \<Longrightarrow> bchain (run_self r') ! ii = self_b (run_self r)"
proof -
  from sample_iter_effect [OF assms] obtain c bc where
    c: "assign_row (chain (run_self r)) ii (run_heap r ! run_xnew r) = Inr c"
    and bc: "assign_row (bchain (run_self r)) ii (self_b (run_self r)) = Inr bc"
    and eq: "chain (run_self r') = c" "bchain (run_self r') = bc" by blast
  show "ii < length (chain (run_self r))" using assign_row_facts(1) [OF c] .
  show "j \<noteq> ii \<Longrightarrow> chain (run_self r') ! j = chain (run_self r) ! j"
    using assign_row_facts(3) [OF c] eq by simp
  show "j \<noteq> ii \<Longrightarrow> bchain (run_self r') ! j = bchain (run_self r) ! j"
    using assign_row_facts(3) [OF bc] eq by simp
  show "length (run_heap r ! run_xnew r) = length (chain (run_self r) ! ii)
           \<Longrightarrow> chain (run_self r') ! ii = run_heap r ! run_xnew r"
    using assign_row_facts(4) [OF c] eq by simp
  show "length (self_b (run_self r)) = length (bchain (run_self r) ! ii)
           \<Longrightarrow> bchain (run_self r') ! ii = self_b (run_self r)"
    using assign_row_facts(4) [OF bc] eq by simp
qed

lemma sample_loop_Suc:
  assumes "sample_loop lib ptl rnd xs outdir ii (Suc n) r = Inr rN"
  obtains r1 where "sample_iter lib ptl rnd xs outdir ii r = Inr r1"
    and "sample_loop lib ptl rnd xs outdir (Suc ii) n r1 = Inr rN"
  using assms by (auto split: sum.splits)

lemma sample_loop_keeps_earlier_rows:
  assumes "sample_loop lib ptl rnd xs outdir ii n r = Inr rN" and "j < ii"
  shows "chain (run_self rN) ! j = chain (run_self r) ! j
         \<and> bchain (run_self rN) ! j = bchain (run_self r) ! j"
  using assms
proof (induction n arbitrary: ii r)
  case 0
  then show ?case by simp
next
  case (Suc n)
  from Suc.prems(1) obtain r1 where it: "sample_iter lib ptl rnd xs outdir ii r = Inr r1"
    and rest: "sample_loop lib ptl rnd xs outdir (Suc ii) n r1 = Inr rN"
    by (rule sample_loop_Suc)
  from Suc.prems(2) have ne: "j \<noteq> ii" and lt: "j < Suc ii" by simp_all
  from Suc.IH [OF rest lt] sample_iter_rows(2,3) [OF it ne] show ?case by simp
qed

lemma sample_loop_split:
  assumes "sample_loop lib ptl rnd xs outdir ii n r = Inr rN" and "k \<le> n"
  shows "\<exists>rk. sample_loop lib ptl rnd xs outdir ii k r = Inr rk
              \<and> sample_loop lib ptl rnd xs outdir (ii + k) (n - k) rk = Inr rN"
  using assms
proof (induction k arbitrary: ii n r)
  case 0
  then show ?case by simp
next
  case (Suc k)
  from Suc.prems(2) obtain m where n: "n = Suc m" and km: "k \<le> m"
    by (cases n) auto
  from Suc.prems(1) have "sample_loop lib ptl rnd xs outdir ii (Suc m) r = Inr rN"
    unfolding n .
  then obtain r1 where it: "sample_iter lib ptl rnd xs outdir ii r = Inr r1"
    and rest: "sample_loop lib ptl rnd xs outdir (Suc ii) m r1 = Inr rN"
    by (rule sample_loop_Suc)
  from Suc.IH [OF rest km] it n show ?case by simp
qed

text \<open>
  C6. For every iteration \<open>i\<close> of the loop of \<open>sample\<close>, the loop reaches a state at
  the start of iteration \<open>i\<close>; in the finished run, row \<open>i\<close> of \<open>chain\<close> is the
  parameter vector of that state and row \<open>i\<close> of \<open>bchain\<close> its latent vector, as
  they were before any block update or redraw of the iteration. (The two vectors have
  the width of the buffers; numpy would broadcast a vector of length one that has not.)
\<close>

theorem chain_rows_record_start_of_iteration:
  assumes "sample_loop lib ptl rnd xs outdir start n r0 = Inr rN"
    and "start \<le> i" and "i < start + n"
  shows "\<exists>ri. sample_loop lib ptl rnd xs outdir start (i - start) r0 = Inr ri
           \<and> (length (run_heap ri ! run_xnew ri) = length (chain (run_self ri) ! i)
                \<longrightarrow> chain (run_self rN) ! i = run_heap ri ! run_xnew ri)
           \<and> (length (self_b (run_self ri)) = length (bchain (run_self ri) ! i)
                \<longrightarrow> bchain (run_self rN) ! i = self_b (run_self ri))"
proof -
  from assms(2,3) have k: "i - start \<le> n" and i: "start + (i - start) = i" by simp_all
  from sample_loop_split [OF assms(1) k] i obtain ri where
    pre: "sample_loop lib ptl rnd xs outdir start (i - start) r0 = Inr ri"
    and post: "sample_loop lib ptl rnd xs outdir i (n - (i - start)) ri = Inr rN" by auto
  from assms(2,3) obtain m where m: "n - (i - start) = Suc m"
    by (cases "n - (i - start)") auto
  from post have "sample_loop lib ptl rnd xs outdir i (Suc m) ri = Inr rN"
    unfolding m .
  then obtain r1 where it: "sample_iter lib ptl rnd xs outdir i ri = Inr r1"
    and rest: "sample_loop lib ptl rnd xs outdir (Suc i) m r1 = Inr rN"
    by (rule sample_loop_Suc)
  from sample_loop_keeps_earlier_rows [OF rest, of i]
  have keep: "chain (run_self rN) ! i = chain (run_self r1) ! i"
    "bchain (run_self rN) ! i = bchain (run_self r1) ! i" by simp_all
  from pre keep sample_iter_rows(4,5) [OF it] show ?thesis by auto
qed

text \<open>The directory.\<close>

lemma checkpoint_skip:
  "\<not> (ii mod 100 = 0 \<and> 0 < ii) \<Longrightarrow> checkpoint g outdir ii fs = fs"
  by (auto simp: checkpoint_def)

lemma checkpoint_log:
  "\<exists>new. np_save_log (checkpoint g outdir ii fs) = np_save_log fs @ new
         \<and> (\<forall>e \<in> set new. fst e = ii \<and> ii mod 100 = 0 \<and> 0 < ii)"
  by (simp add: checkpoint_def)

lemma sample_loop_log:
  "\<exists>new. np_save_log (files_after (sample_loop lib ptl rnd xs outdir ii n r))
            = np_save_log (run_files r) @ new
         \<and> (\<forall>e \<in> set new. fst e mod 100 = 0 \<and> 0 < fst e \<and> ii \<le> fst e \<and> fst e < ii + n)"
proof (induction n arbitrary: ii r)
  case 0
  show ?case by (simp add: files_after_def)
next
  case (Suc n)
  show ?case
  proof (cases "sample_iter lib ptl rnd xs outdir ii r")
    case (Inl e)
    then show ?thesis by (simp add: files_after_def)
  next
    case (Inr r1)
    from sample_iter_effect [OF Inr]
    have f: "run_files r1 = checkpoint (run_self r1) outdir ii (run_files r)" by blast
    from checkpoint_log [of "run_self r1" outdir ii "run_files r"] f obtain new1 where
      n1: "np_save_log (run_files r1) = np_save_log (run_files r) @ new1"
      "\<forall>e \<in> set new1. fst e = ii \<and> ii mod 100 = 0 \<and> 0 < ii" by auto
    from Suc.IH [of "Suc ii" r1] obtain new2 where
      n2: "np_save_log (files_after (sample_loop lib ptl rnd xs outdir (Suc ii) n r1))
            = np_save_log (run_files r1) @ new2"
      "\<forall>e \<in> set new2. fst e mod 100 = 0 \<and> 0 < fst e \<and> Suc ii \<le> fst e \<and> fst e < Suc ii + n"
      by blast
    have "\<forall>e \<in> set (new1 @ new2).
            fst e mod 100 = 0 \<and> 0 < fst e \<and> ii \<le> fst e \<and> fst e < ii + Suc n"
      using n1(2) n2(2) by auto
    with Inr n1(1) n2(1) show ?thesis
      by (intro exI [of _ "new1 @ new2"]) simp
  qed
qed

lemma sample_loop_no_checkpoint:
  assumes "ii + n \<le> 100"
  shows "files_after (sample_loop lib ptl rnd xs outdir ii n r) = run_files r"
  using assms
proof (induction n arbitrary: ii r)
  case 0
  show ?case by (simp add: files_after_def)
next
  case (Suc n)
  show ?case
  proof (cases "sample_iter lib ptl rnd xs outdir ii r")
    case (Inl e)
    then show ?thesis by (simp add: files_after_def)
  next
    case (Inr r1)
    from Suc.prems have "\<not> (ii mod 100 = 0 \<and> 0 < ii)" by auto
    with sample_iter_effect [OF Inr] have "run_files r1 = run_files r"
      by (auto simp: checkpoint_skip)
    moreover from Suc.prems have "Suc ii + n \<le> 100" by simp
    ultimately show ?thesis using Suc.IH [of "Suc ii" r1] Inr by simp
  qed
qed

section \<open>The example run never raises\<close>

lemma rho_update_b_cached:
  assumes "pta g = rho_pta" "residuals g = [1, 2]" "TNT g = None" "self_d g = None"
    and "length v = 1"
  shows "update_b demo_lib g (\<lambda>_. 0) v
         = Inr ([1/2, 1], g\<lparr>TNT := Some [[1, 0], [0, 1]], self_d := Some [1, 2]\<rparr>)"
proof -
  from assms(5) obtain x where "v = [x]" by (auto simp: length_Suc_conv)
  with rho_update_b [OF assms(1-4)] show ?thesis by simp
qed

lemma rho_first_draw:
  assumes "rho_obj g" "length v = 1"
    and "if ii = 0 then TNT g = None \<and> self_d g = None else self_b g = [1/2, 1]"
  shows "first_draw demo_lib g (\<lambda>_. 0) ii v
         = Inr (g\<lparr>self_b := [1/2, 1], TNT := None, self_d := None\<rparr>)"
proof (cases "ii = 0")
  case True
  with assms have "update_b demo_lib g (\<lambda>_. 0) v
         = Inr ([1/2, 1], g\<lparr>TNT := Some [[1, 0], [0, 1]], self_d := Some [1, 2]\<rparr>)"
    by (intro rho_update_b_cached) (simp_all add: rho_obj_def)
  with True show ?thesis by (simp add: first_draw_def)
next
  case False
  with assms(3) have "self_b g = [1/2, 1]" by simp
  then have "g\<lparr>TNT := None, self_d := None\<rparr> = g\<lparr>self_b := [1/2, 1], TNT := None, self_d := None\<rparr>"
    by (cases g) simp
  with False show ?thesis by (simp add: first_draw_def)
qed

lemma rho_run_blocks:
  assumes "rho_obj g" "self_b g = [1/2, 1]" "a < length h" "length (h ! a) = 1"
  shows "run_blocks demo_lib demo_ptl demo_rand ii (a, h, g) = Inr (length h, h @ [[0]], g)"
proof -
  from assms(1) have p: "pta g = rho_pta" by (simp add: rho_obj_def)
  have "update_gwrho_params g no_rho_rand h a = Inr (length h, h @ [[0]], g)"
    using assms by (intro rho_gwrho) (simp_all add: rho_obj_def)
  then show ?thesis
    using rho_noind [OF p] rho_gwind [OF p]
    by (simp add: run_blocks_def white_block_def ecorr_block_def red_block_def gwrho_block_def
        demo_rand_def)
qed

lemma rho_redraw_b:
  assumes "rho_obj g" "self_b g = [1/2, 1]" "TNT g = None" "self_d g = None"
    and "length (chain g ! ii) = 1"
  shows "\<exists>g'. redraw_b demo_lib g (\<lambda>_. 0) ii [0] = Inr g' \<and> rho_obj g' \<and> self_b g' = [1/2, 1]
              \<and> chain g' = chain g \<and> bchain g' = bchain g"
proof -
  from assms(5) obtain v where row: "chain g ! ii = [v]" by (auto simp: length_Suc_conv)
  show ?thesis
  proof (cases "v = 0")
    case True
    with row assms show ?thesis by (simp add: redraw_b_def redraw_test_def)
  next
    case False
    have "update_b demo_lib g (\<lambda>_. 0) [0]
         = Inr ([1/2, 1], g\<lparr>TNT := Some [[1, 0], [0, 1]], self_d := Some [1, 2]\<rparr>)"
      using assms by (intro rho_update_b_cached) (simp_all add: rho_obj_def)
    with False row assms(1) show ?thesis
      by (simp add: redraw_b_def redraw_test_def rho_obj_def)
  qed
qed

lemma rho_iter:
  assumes inv: "rho_inv N xs ii r" and lt: "ii < N"
  shows "\<exists>r'. sample_iter demo_lib demo_ptl demo_rand xs outdir ii r = Inr r'
              \<and> rho_inv N xs (Suc ii) r'"
proof -
  let ?g = "run_self r" and ?h = "run_heap r" and ?x = "run_heap r ! run_xnew r"
  from inv have obj: "rho_obj ?g" and lc: "length (chain ?g) = N" and lb: "length (bchain ?g) = N"
    and rows: "\<forall>j < N. length (chain ?g ! j) = 1 \<and> length (bchain ?g ! j) = 2"
    and a: "run_xnew r < length ?h" "length ?x = 1"
    and xs: "xs < length ?h" "length (?h ! xs) = 1"
    and b: "if ii = 0 then TNT ?g = None \<and> self_d ?g = None \<and> length (self_b ?g) = 2
            else self_b ?g = [1/2, 1] \<and> run_heap r ! run_xnew r = [0]"
    by (simp_all add: rho_inv_def)
  from b have lenb: "length (self_b ?g) = 2" by (cases "ii = 0") simp_all
  define g1 where "g1 = ?g\<lparr>iter := ii, chain := (chain ?g)[ii := ?x],
                               bchain := (bchain ?g)[ii := self_b ?g]\<rparr>"
  have 1: "record_state ?g ii ?x = Inr g1"
    using lt lc lb rows a(2) lenb by (simp add: record_state_def assign_row_def g1_def)
  have obj1: "rho_obj g1" using obj by (simp add: g1_def rho_obj_def)
  have b1: "if ii = 0 then TNT g1 = None \<and> self_d g1 = None else self_b g1 = [1/2, 1]"
    using b by (simp add: g1_def)
  define g2 where "g2 = g1\<lparr>self_b := [1/2, 1], TNT := None, self_d := None\<rparr>"
  have 2: "first_draw demo_lib g1 (\<lambda>_. 0) ii (?h ! xs) = Inr g2"
    unfolding g2_def using obj1 xs(2) b1 by (rule rho_first_draw)
  have obj2: "rho_obj g2" using obj1 by (simp add: g2_def rho_obj_def)
  have 3: "run_blocks demo_lib demo_ptl demo_rand ii (run_xnew r, ?h, g2)
             = Inr (length ?h, ?h @ [[0]], g2)"
    using obj2 a by (intro rho_run_blocks) (simp_all add: g2_def)
  have row: "length (chain g2 ! ii) = 1" using lt lc a(2) by (simp add: g2_def g1_def)
  from rho_redraw_b [OF obj2 _ _ _ row] obtain g4 where
    4: "redraw_b demo_lib g2 (\<lambda>_. 0) ii [0] = Inr g4" and obj4: "rho_obj g4"
    and b4: "self_b g4 = [1/2, 1]" and c4: "chain g4 = chain g2" "bchain g4 = bchain g2"
    by (auto simp: g2_def)
  define r' where "r' = \<lparr> run_self = g4, run_heap = ?h @ [[0]], run_xnew = length ?h,
                          run_files = checkpoint g4 outdir ii (run_files r) \<rparr>"
  have it: "sample_iter demo_lib demo_ptl demo_rand xs outdir ii r = Inr r'"
    using 1 2 3 4 by (simp add: sample_iter_def demo_rand_def r'_def)
  have rows': "\<forall>j < N. length ((chain ?g)[ii := ?x] ! j) = 1
                      \<and> length ((bchain ?g)[ii := self_b ?g] ! j) = 2"
    using rows lc lb a(2) lenb lt by (auto simp: nth_list_update)
  have "rho_inv N xs (Suc ii) r'"
    using obj4 b4 c4 lc lb rows' xs
    by (simp add: rho_inv_def r'_def g2_def g1_def nth_append)
  with it show ?thesis by blast
qed

lemma rho_loop:
  assumes "rho_inv N xs ii r" and "ii + n \<le> N"
  shows "\<exists>r'. sample_loop demo_lib demo_ptl demo_rand xs outdir ii n r = Inr r'
              \<and> rho_inv N xs (ii + n) r'"
  using assms
proof (induction n arbitrary: ii r)
  case 0
  then show ?case by simp
next
  case (Suc n)
  from Suc.prems(2) have lt: "ii < N" by simp
  from rho_iter [OF Suc.prems(1) lt] obtain r1 where
    it: "sample_iter demo_lib demo_ptl demo_rand xs outdir ii r = Inr r1"
    and inv: "rho_inv N xs (Suc ii) r1" by blast
  from Suc.prems(2) have "Suc ii + n \<le> N" by simp
  from Suc.IH [OF inv this] it show ?case by simp
qed

lemma rho_sample_runs:
  "\<exists>r'. sample demo_lib demo_ptl demo_rand (rho_gibbs ''conditional'') [[- 1 / 2]] 0 outdir niter
           False fs = Inr r'"
proof -
  let ?g1 = "rho_gibbs ''conditional''
               \<lparr>stdout := stdout (rho_gibbs ''conditional'') @ [''Creating chain directory: '' @ outdir],
                chain := replicate niter (replicate (length ([[- 1 / 2 :: real]] ! 0)) 0),
                bchain := replicate niter (replicate (length (self_b (rho_gibbs ''conditional''))) 0),
                iter := 0\<rparr>"
  have "rho_inv niter 0 0 \<lparr> run_self = ?g1, run_heap = [[- 1 / 2]], run_xnew = 0,
          run_files = f \<rparr>" for f
    by (simp add: rho_inv_def rho_obj_def rho_fields)
  from rho_loop [OF this, of niter] show ?thesis
    by (auto simp: sample_def Let_def)
qed

section \<open>Snapshots and resume\<close>

lemma sample_loop_zero_or_small:
  assumes "n = 0 \<or> ii + n \<le> 100"
  shows "files_after (sample_loop lib ptl rnd xs outdir ii n r) = run_files r"
  using assms sample_loop_no_checkpoint [of ii n lib ptl rnd xs outdir r]
  by (auto simp: files_after_def)

lemma sample_shape:
  "(\<exists>e. sample lib ptl rnd g h xs outdir niter resume fs = Inl (e, write_names g outdir fs))
   \<or> (\<exists>start r. run_files r = write_names g outdir fs
         \<and> sample lib ptl rnd g h xs outdir niter resume fs
             = sample_loop lib ptl rnd xs outdir start (niter - start) r)"
proof -
  define g1 where "g1 = g\<lparr>stdout := stdout g @ [''Creating chain directory: '' @ outdir],
                 chain := replicate niter (replicate (length (h ! xs)) 0),
                 bchain := replicate niter (replicate (length (self_b g)) 0),
                 iter := 0\<rparr>"
  show ?thesis
  proof (cases resume)
    case False
    define r0 where "r0 = \<lparr> run_self = g1, run_heap = h, run_xnew = xs,
                            run_files = write_names g outdir fs \<rparr>"
    have "sample lib ptl rnd g h xs outdir niter resume fs
            = sample_loop lib ptl rnd xs outdir 0 (niter - 0) r0"
      using False by (simp add: sample_def Let_def r0_def g1_def)
    moreover have "run_files r0 = write_names g outdir fs" by (simp add: r0_def)
    ultimately show ?thesis by blast
  next
    case True
    show ?thesis
    proof (cases "resume_from (g1\<lparr>stdout := stdout g1 @ [''Resuming from previous run...'']\<rparr>)
                    h (length (h ! xs)) (length (self_b g)) outdir (write_names g outdir fs)")
      case (Inl e)
      with True show ?thesis by (simp add: sample_def Let_def g1_def)
    next
      case (Inr res)
      obtain g2 h' a start where res: "res = (g2, h', a, start)" by (cases res)
      define r0 where "r0 = \<lparr> run_self = g2, run_heap = h', run_xnew = a,
                              run_files = write_names g outdir fs \<rparr>"
      have "sample lib ptl rnd g h xs outdir niter resume fs
            = sample_loop lib ptl rnd xs outdir start (niter - start) r0"
        using True Inr res by (simp add: sample_def Let_def r0_def g1_def)
      moreover have "run_files r0 = write_names g outdir fs" by (simp add: r0_def)
      ultimately show ?thesis by blast
    qed
  qed
qed

text \<open>
  C10. Every \<open>np.save\<close> that a call of \<open>sample\<close> makes, whether the call returns or
  raises, happens in an iteration whose index is a positive multiple of 100 and below
  \<open>niter\<close>. With \<open>niter\<close> at most 100 the call leaves the directory as it found it
  but for the two files of names: no chain snapshot is written.
\<close>

theorem snapshots_only_at_positive_multiples_of_100:
  "(\<exists>new. np_save_log (files_after (sample lib ptl rnd g h xs outdir niter resume fs))
             = np_save_log fs @ new
          \<and> (\<forall>e \<in> set new. fst e mod 100 = 0 \<and> 0 < fst e \<and> fst e < niter))
   \<and> (niter \<le> 100 \<longrightarrow>
        files_after (sample lib ptl rnd g h xs outdir niter resume fs) = write_names g outdir fs)"
proof -
  let ?res = "sample lib ptl rnd g h xs outdir niter resume fs"
  from sample_shape [of lib ptl rnd g h xs outdir niter resume fs] show ?thesis
  proof
    assume "\<exists>e. ?res = Inl (e, write_names g outdir fs)"
    then show ?thesis by (auto simp: files_after_def write_names_def)
  next
    assume "\<exists>start r. run_files r = write_names g outdir fs
           \<and> ?res = sample_loop lib ptl rnd xs outdir start (niter - start) r"
    then obtain start r where r: "run_files r = write_names g outdir fs"
      and res: "?res = sample_loop lib ptl rnd xs outdir start (niter - start) r" by blast
    from sample_loop_log [of lib ptl rnd xs outdir start "niter - start" r] obtain new where
      new: "np_save_log (files_after (sample_loop lib ptl rnd xs outdir start (niter - start) r))
              = np_save_log (run_files r) @ new"
      "\<forall>e \<in> set new. fst e mod 100 = 0 \<and> 0 < fst e \<and> start \<le> fst e
                      \<and> fst e < start + (niter - start)" by blast
    have a: "\<forall>e \<in> set new. fst e mod 100 = 0 \<and> 0 < fst e \<and> fst e < niter"
      using new(2) by fastforce
    have b: "niter \<le> 100 \<longrightarrow> files_after ?res = write_names g outdir fs"
    proof
      assume "niter \<le> 100"
      then have "niter - start = 0 \<or> start + (niter - start) \<le> 100" by auto
      from sample_loop_zero_or_small [OF this] res r
      show "files_after ?res = write_names g outdir fs" by simp
    qed
    have "np_save_log (write_names g outdir fs) = np_save_log fs"
      by (simp add: write_names_def)
    with new(1) res r a b show ?thesis by simp
  qed
qed

text \<open>The resume branch and the files of an earlier run.\<close>

lemma checkpoint_other_paths:
  assumes "P \<noteq> outdir @ ''/chain.npy''" and "P \<noteq> outdir @ ''/bchain.npy''"
  shows "contents (checkpoint g outdir ii fs) P = contents fs P"
  using assms by (simp add: checkpoint_def)

lemma sample_loop_other_paths:
  assumes "P \<noteq> outdir @ ''/chain.npy''" and "P \<noteq> outdir @ ''/bchain.npy''"
  shows "contents (files_after (sample_loop lib ptl rnd xs outdir ii n r)) P
           = contents (run_files r) P"
proof (induction n arbitrary: ii r)
  case 0
  show ?case by (simp add: files_after_def)
next
  case (Suc n)
  show ?case
  proof (cases "sample_iter lib ptl rnd xs outdir ii r")
    case (Inl e)
    then show ?thesis by (simp add: files_after_def)
  next
    case (Inr r1)
    from sample_iter_effect [OF Inr]
    have "run_files r1 = checkpoint (run_self r1) outdir ii (run_files r)" by blast
    with checkpoint_other_paths [OF assms] have "contents (run_files r1) P = contents (run_files r) P"
      by simp
    with Suc.IH [of "Suc ii" r1] Inr show ?thesis by simp
  qed
qed

lemma chain_txt_never_written:
  "contents (files_after (sample lib ptl rnd g h xs outdir niter False fs)) (outdir @ ''/chain.txt'')
     = contents fs (outdir @ ''/chain.txt'')"
  by (simp add: sample_def Let_def sample_loop_other_paths write_names_def
      del: sample_loop.simps)

lemma resume_without_chain_txt:
  assumes "contents fs (outdir @ ''/chain.txt'') = None"
  shows "map_sum fst (\<lambda>r. ()) (sample lib ptl rnd g h xs outdir niter True fs)
           = Inl FileNotFoundError"
  using assms by (simp add: sample_def Let_def resume_from_def loadtxt_def write_names_def)

lemma checkpoint_keeps_files:
  "contents fs P \<noteq> None \<Longrightarrow> contents (checkpoint g outdir ii fs) P \<noteq> None"
  by (simp add: checkpoint_def)

lemma sample_loop_keeps_files:
  assumes "sample_loop lib ptl rnd xs outdir ii n r = Inr rN"
    and "contents (run_files r) P \<noteq> None"
  shows "contents (run_files rN) P \<noteq> None"
  using assms
proof (induction n arbitrary: ii r)
  case 0
  then show ?case by simp
next
  case (Suc n)
  from Suc.prems(1) obtain r1 where it: "sample_iter lib ptl rnd xs outdir ii r = Inr r1"
    and rest: "sample_loop lib ptl rnd xs outdir (Suc ii) n r1 = Inr rN"
    by (rule sample_loop_Suc)
  from sample_iter_effect [OF it]
  have "run_files r1 = checkpoint (run_self r1) outdir ii (run_files r)" by blast
  with checkpoint_keeps_files [OF Suc.prems(2)] have "contents (run_files r1) P \<noteq> None" by simp
  from Suc.IH [OF rest this] show ?case .
qed

lemma snapshot_written:
  assumes "sample_loop lib ptl rnd xs outdir 0 n r = Inr rN"
    and "j < n" and "j mod 100 = 0" and "0 < j"
  shows "contents (run_files rN) (outdir @ ''/chain.npy'') \<noteq> None
         \<and> contents (run_files rN) (outdir @ ''/bchain.npy'') \<noteq> None"
proof -
  from assms(2) have k: "j \<le> n" by simp
  from sample_loop_split [OF assms(1) k] obtain rj where
    post: "sample_loop lib ptl rnd xs outdir (0 + j) (n - j) rj = Inr rN" by blast
  from assms(2) obtain m where m: "n - j = Suc m" by (cases "n - j") auto
  from post have "sample_loop lib ptl rnd xs outdir j (Suc m) rj = Inr rN"
    unfolding m by simp
  then obtain r1 where it: "sample_iter lib ptl rnd xs outdir j rj = Inr r1"
    and rest: "sample_loop lib ptl rnd xs outdir (Suc j) m r1 = Inr rN"
    by (rule sample_loop_Suc)
  from sample_iter_effect [OF it]
  have "run_files r1 = checkpoint (run_self r1) outdir j (run_files rj)" by blast
  with assms(3,4) have "contents (run_files r1) (outdir @ ''/chain.npy'') \<noteq> None
         \<and> contents (run_files r1) (outdir @ ''/bchain.npy'') \<noteq> None"
    by (simp add: checkpoint_def)
  with sample_loop_keeps_files [OF rest] show ?thesis by blast
qed

text \<open>
  C1 fails on the code. A run of 101 iterations over the example model writes its
  snapshot at iteration 100 into \<open>chain.npy\<close> and \<open>bchain.npy\<close>; it never writes
  \<open>chain.txt\<close>, the file that the resume branch reads, so resuming in the same
  directory raises \<open>FileNotFoundError\<close>.
\<close>

theorem resume_reads_files_never_written:
  "contents (files_after (sample demo_lib demo_ptl demo_rand (rho_gibbs ''conditional'')
                [[- 1 / 2]] 0 ''out'' 101 False empty_fs)) ''out/chain.npy'' \<noteq> None
   \<and> contents (files_after (sample demo_lib demo_ptl demo_rand (rho_gibbs ''conditional'')
                [[- 1 / 2]] 0 ''out'' 101 False empty_fs)) ''out/chain.txt'' = None
   \<and> map_sum fst (\<lambda>r. ())
       (sample demo_lib demo_ptl demo_rand (rho_gibbs ''conditional'') [[- 1 / 2]] 0 ''out'' 200 True
          (files_after (sample demo_lib demo_ptl demo_rand (rho_gibbs ''conditional'')
                [[- 1 / 2]] 0 ''out'' 101 False empty_fs)))
     = Inl FileNotFoundError"
proof -
  define n :: nat where "n = 101"
  define run1 where "run1 = sample demo_lib demo_ptl demo_rand (rho_gibbs ''conditional'')
                [[- 1 / 2]] 0 ''out'' n False empty_fs"
  from rho_sample_runs [of "''out''" n empty_fs] obtain r1 where r1: "run1 = Inr r1"
    unfolding run1_def by blast
  from sample_shape [of demo_lib demo_ptl demo_rand "rho_gibbs ''conditional''" "[[- 1 / 2]]" 0
      "''out''" n False empty_fs] r1
  have "\<exists>r0. sample_loop demo_lib demo_ptl demo_rand 0 ''out'' 0 n r0 = Inr r1"
    unfolding run1_def
    by (simp add: sample_def Let_def del: sample_loop.simps) blast
  then obtain r0 where l: "sample_loop demo_lib demo_ptl demo_rand 0 ''out'' 0 n r0 = Inr r1" ..
  have "(100::nat) < n" "(100::nat) mod 100 = 0" "(0::nat) < 100" by (simp_all add: n_def)
  from snapshot_written [OF l this] r1
  have a: "contents (files_after run1) ''out/chain.npy'' \<noteq> None"
    by (simp add: files_after_def)
  from chain_txt_never_written [of demo_lib demo_ptl demo_rand "rho_gibbs ''conditional''"
      "[[- 1 / 2]]" 0 "''out''" n empty_fs]
  have b: "contents (files_after run1) ''out/chain.txt'' = None"
    unfolding run1_def by (simp add: empty_fs_def)
  from resume_without_chain_txt [of "files_after run1" "''out''"] b
  have c: "map_sum fst (\<lambda>r. ())
       (sample demo_lib demo_ptl demo_rand (rho_gibbs ''conditional'') [[- 1 / 2]] 0 ''out'' 200 True
          (files_after run1)) = Inl FileNotFoundError"
    by simp
  from a b c show ?thesis unfolding run1_def n_def by blast
qed

section \<open>The redraw of the latent vector\<close>

lemma red_indices:
  assumes "pta g = red_pta"
  shows "get_efacequad_indices g = []" "get_ecorr_indices g = []"
    "get_red_param_indices g = [0, 1]" "get_gwrho_param_indices g = [2]"
  using assms
  by (simp_all add: get_efacequad_indices_def get_red_param_indices_def get_ecorr_indices_def
      get_gwrho_param_indices_def param_names_def params_of_def red_pta_def
      demo_pta_def names_of_param_def rho_param1_def red_A_param_def red_gamma_param_def
      indices_where_def enumerate_eq_zip upt_rec str_nat_digits)

lemma red_map_params:
  assumes "pta g = red_pta"
  shows "\<exists>ps. map_params g [x, y, z] = Inr ps"
  using assms
  by (simp add: map_params_def params_of_def red_pta_def demo_pta_def rho_param1_def
      red_A_param_def red_gamma_param_def)

lemma red_pta_fields:
  "get_ndiag red_pta ps = [1, 1]" "get_phiinv red_pta ps = ([1, 1], 0)"
  "get_basis red_pta ps = [[1, 0], [0, 1]]"
  by (simp_all add: red_pta_def demo_pta_def)

lemma red_fill_cache:
  assumes "residuals g = [1, 2]" "TNT g = None" "self_d g = None"
  shows "fill_cache g [[1, 0], [0, 1]] [1, 1]
           = Inr (g\<lparr>TNT := Some [[1, 0], [0, 1]], self_d := Some [1, 2]\<rparr>)"
  using assms
  by (simp add: fill_cache_def div_rows_def mat_mul_def mat_vec_def np_zip_def dot_def
      transpose.simps)

lemma demo_mean_and_factor:
  "mean_and_factor_svd demo_lib [[2, 0], [0, 2]] [1, 2]
     = Inr ([1/2, 1], [[sqrt (1/2), 0], [0, sqrt (1/2)]])"
  by (simp add: mean_and_factor_svd_def demo_lib_def enumerate_eq_zip upt_rec mat_vec_def
      np_zip_def dot_def transpose.simps scale_cols_def)

lemma red_update_b:
  assumes "pta g = red_pta" "residuals g = [1, 2]" "TNT g = None" "self_d g = None"
  shows "update_b demo_lib g (\<lambda>_. c) [x, y, z]
         = Inr ([1/2 + sqrt (1/2) * c, 1 + sqrt (1/2) * c],
                g\<lparr>TNT := Some [[1, 0], [0, 1]], self_d := Some [1, 2]\<rparr>)"
proof -
  from red_map_params [OF assms(1)] obtain ps where ps: "map_params g [x, y, z] = Inr ps" by blast
  have S: "get_Sigma (g\<lparr>TNT := Some [[1, 0], [0, 1]], self_d := Some [1, 2]\<rparr>) [1, 1]
             = Inr ([[2, 0], [0, 2]], [1, 2])"
    by (simp add: get_Sigma_def add_diag_def enumerate_eq_zip upt_rec)
  show ?thesis
    using ps assms(1) red_fill_cache [OF assms(2-4)] S demo_mean_and_factor
    by (simp add: update_b_def red_pta_fields Let_def mat_vec_def dot_def upt_rec np_zip_def)
qed

lemma red_fullmarg:
  assumes "pta g = red_pta" "residuals g = [1, 2]" "TNT g = None" "self_d g = None"
  shows "\<exists>v. get_lnlikelihood_fullmarg demo_lib g [x, y, z]
         = Inr (v, g\<lparr>TNT := Some [[1, 0], [0, 1]], self_d := Some [1, 2]\<rparr>)"
proof -
  from red_map_params [OF assms(1)] obtain ps where ps: "map_params g [x, y, z] = Inr ps" by blast
  have S: "get_Sigma (g\<lparr>TNT := Some [[1, 0], [0, 1]], self_d := Some [1, 2]\<rparr>) [1, 1]
             = Inr ([[2, 0], [0, 2]], [1, 2])"
    by (simp add: get_Sigma_def add_diag_def enumerate_eq_zip upt_rec)
  have su: "fullmarg_setup g [x, y, z]
     = Inr ([1, 1], [1, 4], 0, [[2, 0], [0, 2]], [1, 2],
            g\<lparr>TNT := Some [[1, 0], [0, 1]], self_d := Some [1, 2]\<rparr>)"
    using ps assms(1,2) red_fill_cache [OF assms(2-4)] S
    by (simp add: fullmarg_setup_def red_pta_fields Let_def np_zip_def)
  have ch: "\<exists>cf ev. try_cholesky demo_lib [[2, 0], [0, 2]] [1, 2] = Inr (cf, ev)"
    by (simp add: try_cholesky_def demo_lib_def diag_cho_factor_def enumerate_eq_zip upt_rec)
  then obtain cf ev where "try_cholesky demo_lib [[2, 0], [0, 2]] [1, 2] = Inr (cf, ev)" by blast
  with su show ?thesis
    by (simp add: get_lnlikelihood_fullmarg_def Let_def)
qed

lemma red_lnprior:
  assumes "pta g = red_pta"
  shows "get_lnprior g [x, y, z] = Inr (Fin 0)"
  using assms
  by (simp add: get_lnprior_def map_params_def params_of_def red_pta_def demo_pta_def
      rho_param1_def red_A_param_def red_gamma_param_def)

lemma identity_cov_3:
  "sub_matrix (identity_cov 3) [0, 1] = Inr [[1/100, 0], [0, 1/100]]"
  by (simp add: sub_matrix_def identity_cov_def select_cols_def upt_rec numeral_3_eq_3)

lemma red_tune:
  assumes "pta g = red_pta" "residuals g = [1, 2]" "TNT g = None" "self_d g = None"
  shows "\<exists>eng. tune_red demo_lib demo_ptl g seed [x, y, z] n
           = Inr ([x + 1, y, z],
                  g\<lparr>TNT := Some [[1, 0], [0, 1]], self_d := Some [1, 2],
                     ptsampler_rn := Some eng\<rparr>)"
proof -
  from red_fullmarg [OF assms] obtain v where
    f: "get_lnlikelihood_fullmarg demo_lib g [x, y, z]
         = Inr (v, g\<lparr>TNT := Some [[1, 0], [0, 1]], self_d := Some [1, 2]\<rparr>)" by blast
  have p: "get_lnprior (g\<lparr>TNT := Some [[1, 0], [0, 1]], self_d := Some [1, 2]\<rparr>) [x, y, z]
             = Inr (Fin 0)"
    using assms(1) by (intro red_lnprior) simp
  have r: "get_red_param_indices (g\<lparr>TNT := Some [[1, 0], [0, 1]], self_d := Some [1, 2]\<rparr>)
             = [0, 1]"
    using assms(1) by (intro red_indices) simp
  have svd: "np_linalg_svd demo_lib (Some [[1/100, 0], [0, 1/100]]) = Inr ([], [])"
    by (simp add: demo_lib_def)
  show ?thesis
    using f p r svd identity_cov_3
    by (auto simp add: tune_red_def Let_def demo_ptl_def numeral_3_eq_3)
qed


lemma red_update_red:
  assumes "pta g = red_pta" "residuals g = [1, 2]" "TNT g = None" "self_d g = None"
    and "h ! a = [x, y, z]"
  shows "\<exists>eng. update_red_params demo_lib demo_ptl g seed h a (Some n)
           = Inr (Suc (length h), h @ [[x, y, z], [x + 1, y, z]],
                  g\<lparr>TNT := Some [[1, 0], [0, 1]], self_d := Some [1, 2],
                     ptsampler_rn := Some eng\<rparr>)"
proof -
  from red_tune [OF assms(1-4), of seed x y z n] obtain eng where
    "tune_red demo_lib demo_ptl g seed [x, y, z] n
           = Inr ([x + 1, y, z],
                  g\<lparr>TNT := Some [[1, 0], [0, 1]], self_d := Some [1, 2],
                     ptsampler_rn := Some eng\<rparr>)" by blast
  with assms(5) show ?thesis
    by (auto simp add: update_red_params_def alloc_def Let_def)
qed

lemma red_run_blocks:
  assumes "pta g = red_pta" "residuals g = [1, 2]" "TNT g = None" "self_d g = None"
    and "hypersample g = ''mh''" and "h ! a = [x, y, z]"
  shows "\<exists>g'. run_blocks demo_lib demo_ptl rnd 0 (a, h, g)
           = Inr (Suc (Suc (length h)), h @ [[x, y, z], [x + 1, y, z], [x + 1, y, z]], g')
           \<and> self_b g' = self_b g \<and> chain g' = chain g \<and> bchain g' = bchain g"
proof -
  from red_update_red [OF assms(1-4,6), of "pt_seed rnd 0" 10000] obtain eng where
    u: "update_red_params demo_lib demo_ptl g (pt_seed rnd 0) h a (Some 10000)
           = Inr (Suc (length h), h @ [[x, y, z], [x + 1, y, z]],
                  g\<lparr>TNT := Some [[1, 0], [0, 1]], self_d := Some [1, 2],
                     ptsampler_rn := Some eng\<rparr>)" by blast
  let ?g3 = "g\<lparr>TNT := Some [[1, 0], [0, 1]], self_d := Some [1, 2], ptsampler_rn := Some eng\<rparr>"
  have i3: "get_gwrho_param_indices ?g3 = [2]"
    using assms(1) by (intro red_indices) simp
  have w: "update_gwrho_params ?g3 (rho_draws rnd 0) (h @ [[x, y, z], [x + 1, y, z]]) (Suc (length h))
             = Inr (Suc (Suc (length h)), h @ [[x, y, z], [x + 1, y, z], [x + 1, y, z]],
                    ?g3\<lparr>stdout := stdout ?g3 @ [rho_error_message]\<rparr>)"
    using assms(5) by (simp add: update_gwrho_params_def alloc_def Let_def nth_append)
  show ?thesis
    using red_indices [OF assms(1)] u i3 w
    by (simp add: run_blocks_def white_block_def ecorr_block_def red_block_def gwrho_block_def)
qed

text \<open>
  C2 fails on the code. Over a model with two red-noise parameters and one
  free-spectrum parameter, built with the mode \<open>mh\<close>, the first iteration records
  \<open>[-14, 3, -1/2]\<close>, the red-noise block moves the first parameter to \<open>-13\<close>, and
  the test compares every entry of the new vector with the last entry of the recorded
  row, \<open>-1/2\<close>, which the new vector still has: the latent vector is not redrawn and
  stays the draw made from the initial parameters.
\<close>

theorem redraw_skipped_although_parameters_changed:
  "redraw_test [- 13, 3, - 1 / 2] [- 14, 3, - 1 / 2] = Inr False
   \<and> map_sum fst (\<lambda>r. (chain (run_self r) ! 0, run_heap r ! run_xnew r, self_b (run_self r)))
       (sample demo_lib demo_ptl demo_rand1 (red_gibbs ''mh'') [[- 14, 3, - 1 / 2]] 0 ''out'' 1
          False empty_fs)
     = Inr ([- 14, 3, - 1 / 2], [- 13, 3, - 1 / 2], [1 / 2, 1])"
proof -
  have t: "redraw_test [- 13, 3, - 1 / 2] [- 14, 3, - 1 / 2] = Inr False"
    by (simp add: redraw_test_def)
  define g1 where "g1 = (red_gibbs ''mh'')
      \<lparr>stdout := stdout (red_gibbs ''mh'') @ [''Creating chain directory: '' @ ''out''],
       chain := [[0, 0, 0]], bchain := [[0, 0]], iter := 0\<rparr>"
  define r0 where "r0 = \<lparr> run_self = g1, run_heap = [[- 14, 3, - 1 / 2]], run_xnew = 0,
                          run_files = write_names (red_gibbs ''mh'') ''out'' empty_fs \<rparr>"
  have s: "sample demo_lib demo_ptl demo_rand1 (red_gibbs ''mh'') [[- 14, 3, - 1 / 2]] 0 ''out'' 1
          False empty_fs
        = sample_loop demo_lib demo_ptl demo_rand1 0 ''out'' 0 1 r0"
    by (simp add: sample_def Let_def r0_def g1_def red_gibbs_def demo_gibbs_def
        del: sample_loop.simps)
  define g1a where "g1a = g1\<lparr>iter := 0, chain := [[- 14, 3, - 1 / 2]], bchain := [[0, 0]]\<rparr>"
  have f1: "pta g1a = red_pta" "residuals g1a = [1, 2]" "TNT g1a = None" "self_d g1a = None"
    "hypersample g1a = ''mh''"
    by (simp_all add: g1a_def g1_def red_gibbs_def demo_gibbs_def)
  have 1: "record_state g1 0 [- 14, 3, - 1 / 2] = Inr g1a"
    by (simp add: record_state_def assign_row_def g1a_def g1_def red_gibbs_def demo_gibbs_def)
  define g2 where "g2 = g1a\<lparr>self_b := [1 / 2, 1], TNT := None, self_d := None\<rparr>"
  have 2: "first_draw demo_lib g1a (z_first demo_rand1) 0 [- 14, 3, - 1 / 2] = Inr g2"
    using red_update_b [OF f1(1-4), of 0 "- 14" 3 "- 1 / 2"]
    by (simp add: first_draw_def g2_def demo_rand1_def demo_rand_def)
  have f2: "pta g2 = red_pta" "residuals g2 = [1, 2]" "TNT g2 = None" "self_d g2 = None"
    "hypersample g2 = ''mh''"
    using f1 by (simp_all add: g2_def)
  have hx: "[[- 14, 3, - 1 / 2]] ! 0 = [- 14, 3, - 1 / 2 :: real]" by simp
  from red_run_blocks [OF f2 hx, of demo_rand1] obtain g3 where
    3: "run_blocks demo_lib demo_ptl demo_rand1 0 (0, [[- 14, 3, - 1 / 2]], g2)
          = Inr (3, [[- 14, 3, - 1 / 2], [- 14, 3, - 1 / 2], [- 13, 3, - 1 / 2], [- 13, 3, - 1 / 2]], g3)"
    and g3: "self_b g3 = self_b g2" "chain g3 = chain g2" "bchain g3 = bchain g2"
    by (auto simp: numeral_3_eq_3)
  have 4: "redraw_b demo_lib g3 (z_redraw demo_rand1 0) 0 [- 13, 3, - 1 / 2] = Inr g3"
    using g3(2) by (simp add: redraw_b_def redraw_test_def g2_def g1a_def)
  have "sample_iter demo_lib demo_ptl demo_rand1 0 ''out'' 0 r0
          = Inr \<lparr> run_self = g3,
                  run_heap = [[- 14, 3, - 1 / 2], [- 14, 3, - 1 / 2], [- 13, 3, - 1 / 2],
                              [- 13, 3, - 1 / 2]],
                  run_xnew = 3, run_files = checkpoint g3 ''out'' 0 (run_files r0) \<rparr>"
    using 1 2 3 4 by (simp add: sample_iter_def r0_def)
  then have "sample_loop demo_lib demo_ptl demo_rand1 0 ''out'' 0 1 r0
          = Inr \<lparr> run_self = g3,
                  run_heap = [[- 14, 3, - 1 / 2], [- 14, 3, - 1 / 2], [- 13, 3, - 1 / 2],
                              [- 13, 3, - 1 / 2]],
                  run_xnew = 3, run_files = checkpoint g3 ''out'' 0 (run_files r0) \<rparr>"
    by simp
  with s g3 have "map_sum fst (\<lambda>r. (chain (run_self r) ! 0, run_heap r ! run_xnew r, self_b (run_self r)))
       (sample demo_lib demo_ptl demo_rand1 (red_gibbs ''mh'') [[- 14, 3, - 1 / 2]] 0 ''out'' 1
          False empty_fs)
     = Inr ([- 14, 3, - 1 / 2], [- 13, 3, - 1 / 2], [1 / 2, 1])"
    by (simp add: g2_def g1a_def)
  with t show ?thesis by simp
qed

section \<open>Runs of the example\<close>

lemma rho_run0_inv: "rho_inv N 0 0 (rho_run0 N)"
  by (simp add: rho_inv_def rho_obj_def rho_run0_def rho_fields)

text \<open>A run of two iterations over the example model, for C6.\<close>

theorem chain_rows_record_start_of_iteration_witness:
  "\<exists>rN ri. sample_loop demo_lib demo_ptl demo_rand 0 ''out'' 0 2 (rho_run0 2) = Inr rN
     \<and> sample_loop demo_lib demo_ptl demo_rand 0 ''out'' 0 (1 - 0) (rho_run0 2) = Inr ri
     \<and> run_heap ri ! run_xnew ri = [0] \<and> self_b (run_self ri) = [1 / 2, 1]
     \<and> chain (run_self rN) ! 1 = [0] \<and> bchain (run_self rN) ! 1 = [1 / 2, 1]"
proof -
  define N :: nat where "N = 2"
  define i :: nat where "i = 1"
  have le: "0 + N \<le> N" "0 + (i - 0) \<le> N" "(0::nat) \<le> i" "i < 0 + N"
    by (simp_all add: N_def i_def)
  from rho_loop [OF rho_run0_inv le(1), of "''out''"] obtain rN where
    full: "sample_loop demo_lib demo_ptl demo_rand 0 ''out'' 0 N (rho_run0 N) = Inr rN" by blast
  from rho_loop [OF rho_run0_inv le(2), of "''out''"] obtain ri where
    part: "sample_loop demo_lib demo_ptl demo_rand 0 ''out'' 0 (i - 0) (rho_run0 N) = Inr ri"
    and inv: "rho_inv N 0 (0 + (i - 0)) ri" by blast
  from inv have x: "run_heap ri ! run_xnew ri = [0]" and b: "self_b (run_self ri) = [1 / 2, 1]"
    and w: "length (chain (run_self ri) ! i) = 1" "length (bchain (run_self ri) ! i) = 2"
    by (simp_all add: rho_inv_def i_def N_def)
  from chain_rows_record_start_of_iteration [OF full le(3,4)] part x b w
  have "chain (run_self rN) ! i = [0] \<and> bchain (run_self rN) ! i = [1 / 2, 1]"
    by simp
  with full part x b show ?thesis
    unfolding N_def i_def by blast
qed

text \<open>A run of two iterations over the example model, for C10.\<close>

theorem snapshots_only_at_positive_multiples_of_100_witness:
  "(2::nat) \<le> 100
   \<and> files_after (sample demo_lib demo_ptl demo_rand (rho_gibbs ''conditional'') [[- 1 / 2]] 0
        ''out'' 2 False empty_fs)
     = write_names (rho_gibbs ''conditional'') ''out'' empty_fs
   \<and> np_save_log (files_after (sample demo_lib demo_ptl demo_rand (rho_gibbs ''conditional'')
        [[- 1 / 2]] 0 ''out'' 2 False empty_fs)) = []"
proof -
  have le: "(2::nat) \<le> 100" by simp
  from snapshots_only_at_positive_multiples_of_100 [of demo_lib demo_ptl demo_rand
      "rho_gibbs ''conditional''" "[[- 1 / 2]]" 0 "''out''" 2 False empty_fs] le
  have f: "files_after (sample demo_lib demo_ptl demo_rand (rho_gibbs ''conditional'') [[- 1 / 2]] 0
        ''out'' 2 False empty_fs)
     = write_names (rho_gibbs ''conditional'') ''out'' empty_fs"
    by blast
  have "np_save_log (write_names (rho_gibbs ''conditional'') ''out'' empty_fs) = []"
    by (simp add: write_names_def empty_fs_def)
  with f le show ?thesis by simp
qed

lemma init_rho: "PulsarBlockGibbs_init rho_pta hs ''mh'' None = Inr (rho_gibbs hs)"
  by (simp add: PulsarBlockGibbs_init_def rho_pta_def demo_pta_def last_index_def rho_param_def
      rho_param1_def white_signal_def gw_signal_def init_ecorr_def
      last_signal_def basis_width_def rho_gibbs_def demo_gibbs_def str_nat_digits enumerate_eq_zip
      upt_rec)

lemma init_red: "PulsarBlockGibbs_init red_pta hs ''mh'' None = Inr (red_gibbs hs)"
  by (simp add: PulsarBlockGibbs_init_def red_pta_def demo_pta_def last_index_def rho_param_def
      rho_param1_def red_A_param_def red_gamma_param_def white_signal_def gw_signal_def
      red_signal_def init_ecorr_def
      last_signal_def basis_width_def red_gibbs_def demo_gibbs_def str_nat_digits enumerate_eq_zip
      upt_rec)

lemma init_demo2: "PulsarBlockGibbs_init demo2_pta hs ''mh'' None = Inr (demo2_gibbs hs)"
  by (simp add: PulsarBlockGibbs_init_def demo2_pta_def demo_pta_def last_index_def rho_param_def
      rho_param1_def efac_param_def equad_param_def white_signal_def gw_signal_def
      init_ecorr_def
      last_signal_def basis_width_def demo2_gibbs_def demo_gibbs_def str_nat_digits enumerate_eq_zip
      upt_rec)

end
